theory Spec2Isabelle
  imports Complex_Main "HOL-Library.Multiset" "HOL-Library.AList"
begin

section \<open>Data model\<close>

text \<open>
  The decoded snapshot tree (\<^verbatim>\<open>matchData.SaveFile\<close>). An absent key is \<open>None\<close>. A numeric
  leaf is the integer that \<^verbatim>\<open>parseInt(leaf, 10)\<close> reads from it, which may be negative; an
  instant is its number of milliseconds since the epoch, as \<^verbatim>\<open>Date.getTime()\<close> gives it.
  Numbers are integers of the range that JavaScript represents exactly; \<^verbatim>\<open>NaN\<close> and invalid
  dates are not values of the model. An object that is iterated
  (\<^verbatim>\<open>for (playerId in teamPlayers)\<close>) is the list of its entries in iteration order.
\<close>

record half_score =
  hs_team1 :: "int option"
  hs_team2 :: "int option"

record player_entry =
  pe_name :: "string option"
  pe_kills :: "int option"
  pe_deaths :: "int option"

record save_file =
  sf_map :: "string option"
  FirstHalfScore :: "half_score option"
  SecondHalfScore :: "half_score option"
  OvertimeScore :: "half_score option"
  PlayersOnTeam1 :: "(string \<times> player_entry) list option"
  PlayersOnTeam2 :: "(string \<times> player_entry) list option"

text \<open>One element of \<^verbatim>\<open>fileInfos\<close>: \<^verbatim>\<open>{ name, timestamp, round, data }\<close>.\<close>

record file_info =
  fi_name :: string
  fi_timestamp :: int
  fi_round :: int
  fi_data :: save_file

section \<open>Segmentation: \<^verbatim>\<open>groupFilesIntoGames\<close>\<close>

text \<open>
  \<^verbatim>\<open>fileInfos.sort((a, b) => a.timestamp - b.timestamp)\<close>: the sort of an array is stable,
  so it is the stable insertion sort on the timestamp.
\<close>

definition sortByTimestamp :: "file_info list \<Rightarrow> file_info list" where
  "sortByTimestamp fileInfos = sort_key fi_timestamp fileInfos"

text \<open>The body of the loop, on the pair \<^verbatim>\<open>(groups, currentGame)\<close>.\<close>

definition groupStep ::
  "file_info list list \<times> file_info list \<Rightarrow> file_info \<Rightarrow> file_info list list \<times> file_info list"
where
  "groupStep st info =
     (case st of (groups, currentGame) \<Rightarrow>
        if fi_round info = 1 \<and> length currentGame > 0
        then (groups @ [currentGame], [info])
        else if length currentGame > 0
                \<and> sf_map (fi_data info) \<noteq> sf_map (fi_data (currentGame ! 0))
        then (groups @ [currentGame], [info])
        else (groups, currentGame @ [info]))"

definition groupFilesIntoGames :: "file_info list \<Rightarrow> file_info list list" where
  "groupFilesIntoGames fileInfos =
     (case foldl groupStep ([], []) (sortByTimestamp fileInfos) of
        (groups, currentGame) \<Rightarrow>
          if length currentGame > 0 then groups @ [currentGame] else groups)"

section \<open>JavaScript built-ins used by the engine\<close>

text \<open>\<^verbatim>\<open>Number.prototype.toString()\<close> of an integer: its decimal numeral.\<close>

definition digitChar :: "nat \<Rightarrow> char" where
  "digitChar n = ''0123456789'' ! n"

function decimal :: "int \<Rightarrow> string" where
  "decimal n =
     (if n < 10 then [digitChar (nat n)] else decimal (n div 10) @ [digitChar (nat (n mod 10))])"
  by pat_completeness auto
termination
  by (relation "measure nat") auto

declare decimal.simps [simp del]

definition jsToString :: "int \<Rightarrow> string" where
  "jsToString n = (if n < 0 then CHR ''-'' # decimal (- n) else decimal n)"

text \<open>\<^verbatim>\<open>s.padStart(w, "0")\<close>.\<close>

definition padStart :: "nat \<Rightarrow> string \<Rightarrow> string" where
  "padStart w s = replicate (w - length s) CHR ''0'' @ s"

text \<open>The remainder \<^verbatim>\<open>a % b\<close> truncates towards zero: it has the sign of \<open>a\<close>.\<close>

definition jsRem :: "int \<Rightarrow> int \<Rightarrow> int" where
  "jsRem a b = sgn a * (\<bar>a\<bar> mod \<bar>b\<bar>)"

text \<open>
  \<^verbatim>\<open>Date.prototype.toISOString()\<close> of a valid date, from its milliseconds since the epoch:
  the proleptic Gregorian date in UTC, with a four-digit year from 0 to 9999 and a signed
  six-digit year otherwise.
\<close>

definition civilFromDays :: "int \<Rightarrow> int \<times> int \<times> int" where
  "civilFromDays days =
     (let z = days + 719468;
          era = z div 146097;
          doe = z mod 146097;
          yoe = (doe - doe div 1460 + doe div 36524 - doe div 146096) div 365;
          doy = doe - (365 * yoe + yoe div 4 - yoe div 100);
          mp = (5 * doy + 2) div 153;
          d = doy - (153 * mp + 2) div 5 + 1;
          m = (if mp < 10 then mp + 3 else mp - 9);
          y = yoe + era * 400 + (if m \<le> 2 then 1 else 0)
      in (y, m, d))"

definition isoYear :: "int \<Rightarrow> string" where
  "isoYear y =
     (if 0 \<le> y \<and> y \<le> 9999 then padStart 4 (decimal y)
      else (if y < 0 then CHR ''-'' else CHR ''+'') # padStart 6 (decimal \<bar>y\<bar>))"

definition toISOString :: "int \<Rightarrow> string" where
  "toISOString ms =
     (case civilFromDays (ms div 86400000) of (y, m, d) \<Rightarrow>
        let t = ms mod 86400000 in
        isoYear y @ ''-'' @ padStart 2 (decimal m) @ ''-'' @ padStart 2 (decimal d) @ ''T''
          @ padStart 2 (decimal (t div 3600000)) @ '':''
          @ padStart 2 (decimal (t mod 3600000 div 60000)) @ '':''
          @ padStart 2 (decimal (t mod 60000 div 1000)) @ ''.''
          @ padStart 3 (decimal (t mod 1000)) @ ''Z'')"

text \<open>
  \<^verbatim>\<open>formatDuration(seconds)\<close>. Its argument is an integer, which \<^verbatim>\<open>parseInt(seconds, 10)\<close>
  gives back.
\<close>

definition formatDuration :: "int \<Rightarrow> string" where
  "formatDuration seconds =
     (let sec = seconds;
          h = sec div 3600;
          m = jsRem sec 3600 div 60;
          s = jsRem sec 60
      in padStart 2 (jsToString h) @ '':'' @ padStart 2 (jsToString m) @ '':''
           @ padStart 2 (jsToString s))"

section \<open>Result resolution: the loop of \<^verbatim>\<open>aggregateGameResults\<close>\<close>

record score =
  sc_team1 :: int
  sc_team2 :: int

text \<open>\<^verbatim>\<open>parseInt(x || "0", 10)\<close> on a numeric leaf: an absent leaf counts as zero.\<close>

definition orZero :: "int option \<Rightarrow> int" where
  "orZero x = (case x of None \<Rightarrow> 0 | Some n \<Rightarrow> n)"

definition addHalf :: "score \<Rightarrow> half_score option \<Rightarrow> score" where
  "addHalf sc half =
     (case half of
        None \<Rightarrow> sc
      | Some h \<Rightarrow> \<lparr>sc_team1 = sc_team1 sc + orZero (hs_team1 h),
                    sc_team2 = sc_team2 sc + orZero (hs_team2 h)\<rparr>)"

definition getFinalScore :: "save_file \<Rightarrow> score" where
  "getFinalScore saveFile =
     addHalf (addHalf (addHalf \<lparr>sc_team1 = 0, sc_team2 = 0\<rparr> (FirstHalfScore saveFile))
       (SecondHalfScore saveFile)) (OvertimeScore saveFile)"

record player_stat =
  ps_name :: string
  ps_kills :: int
  ps_deaths :: int

text \<open>The inner loop over one team's players: empty and \<^verbatim>\<open>"Unknown"\<close> names are skipped.\<close>

fun teamRoster :: "(string \<times> player_entry) list \<Rightarrow> player_stat list" where
  "teamRoster [] = []"
| "teamRoster ((playerId, p) # rest) =
     (let name = (case pe_name p of None \<Rightarrow> [] | Some n \<Rightarrow> n) in
      if name = [] \<or> name = ''Unknown'' then teamRoster rest
      else \<lparr>ps_name = name, ps_kills = orZero (pe_kills p), ps_deaths = orZero (pe_deaths p)\<rparr>
             # teamRoster rest)"

definition extractPlayers :: "(string \<times> player_entry) list option \<Rightarrow> player_stat list" where
  "extractPlayers team = (case team of None \<Rightarrow> [] | Some teamPlayers \<Rightarrow> teamRoster teamPlayers)"

record rosters =
  ro_team1 :: "player_stat list"
  ro_team2 :: "player_stat list"

record game_result =
  startTime :: string
  endTime :: string
  duration :: string
  gr_map :: string
  finalScore :: score
  players :: rosters
  winner :: "string list"
  loser :: "string list"

datatype js_error = TypeError

text \<open>\<^verbatim>\<open>x.map || "Unknown"\<close>: an absent or empty map name becomes \<^verbatim>\<open>"Unknown"\<close>.\<close>

definition mapOrUnknown :: "string option \<Rightarrow> string" where
  "mapOrUnknown m = (case m of None \<Rightarrow> ''Unknown'' | Some s \<Rightarrow> if s = [] then ''Unknown'' else s)"

text \<open>
  The body of \<^verbatim>\<open>for (let group of gameGroups)\<close>: \<open>Inr None\<close> is \<^verbatim>\<open>continue\<close>, \<open>Inr (Some r)\<close>
  pushes \<open>r\<close>, and \<open>Inl TypeError\<close> is the exception that reading \<^verbatim>\<open>group[0].timestamp\<close> of
  an empty group throws. \<^verbatim>\<open>winner\<close> and \<^verbatim>\<open>loser\<close> start as \<^verbatim>\<open>null\<close>, here \<open>None\<close>.
\<close>

definition resolveGroup :: "file_info list \<Rightarrow> js_error + game_result option" where
  "resolveGroup grp0 =
     (let grp = sortByTimestamp grp0 in
      if grp = [] then Inl TypeError
      else
        let startTime = fi_timestamp (grp ! 0);
            finalSnapshot = grp ! (length grp - 1);
            endTime = fi_timestamp finalSnapshot;
            durationSeconds = (endTime - startTime) div 1000;
            duration = formatDuration durationSeconds
        in
        if duration = ''00:00:00'' then Inr None
        else
          let mapName = mapOrUnknown (sf_map (fi_data finalSnapshot));
              finalScore = getFinalScore (fi_data finalSnapshot)
          in
          if sc_team1 finalScore = 0 \<and> sc_team2 finalScore = 0 then Inr None
          else
            let players = \<lparr>ro_team1 = extractPlayers (PlayersOnTeam1 (fi_data finalSnapshot)),
                           ro_team2 = extractPlayers (PlayersOnTeam2 (fi_data finalSnapshot))\<rparr>;
                score1 = sc_team1 finalScore;
                score2 = sc_team2 finalScore;
                winner = (if score1 \<noteq> score2
                          then (if score1 > score2 then Some (ro_team1 players)
                                else Some (ro_team2 players))
                          else None);
                loser = (if score1 \<noteq> score2
                         then (if score1 > score2 then Some (ro_team2 players)
                               else Some (ro_team1 players))
                         else None)
            in Inr (Some \<lparr>startTime = toISOString startTime,
                           endTime = toISOString endTime,
                           duration = duration,
                           gr_map = mapName,
                           finalScore = finalScore,
                           players = players,
                           winner = (case winner of Some w \<Rightarrow> map ps_name w | None \<Rightarrow> []),
                           loser = (case loser of Some l \<Rightarrow> map ps_name l | None \<Rightarrow> [])\<rparr>))"

fun resolveAll :: "file_info list list \<Rightarrow> js_error + game_result list" where
  "resolveAll [] = Inr []"
| "resolveAll (grp # rest) =
     (case resolveGroup grp of
        Inl e \<Rightarrow> Inl e
      | Inr r \<Rightarrow>
          (case resolveAll rest of
             Inl e \<Rightarrow> Inl e
           | Inr rs \<Rightarrow> Inr ((case r of None \<Rightarrow> [] | Some x \<Rightarrow> [x]) @ rs)))"

section \<open>The quotient of two totals and its two decimals\<close>

text \<open>
  The number arithmetic of \<^verbatim>\<open>p.totalKills / p.totalDeaths\<close>: the quotient of two integers,
  rounded to the nearest binary64 value, ties to the even significand (53 bits; the
  quotient of two integers that a number represents exactly is never subnormal and
  never overflows).
\<close>

definition roundHalfEven :: "rat \<Rightarrow> int" where
  "roundHalfEven x =
     (let f = \<lfloor>x\<rfloor>; r = x - of_int f in
      if r < 1 / 2 then f else if r > 1 / 2 then f + 1 else if even f then f else f + 1)"

function bitLength :: "int \<Rightarrow> int" where
  "bitLength n = (if n \<le> 0 then 0 else 1 + bitLength (n div 2))"
  by pat_completeness auto
termination
  by (relation "measure nat") auto

declare bitLength.simps [simp del]

text \<open>The exponent \<open>e\<close> with \<open>2\<^sup>e \<le> \<bar>x\<bar> < 2\<^sup>e\<^sup>+\<^sup>1\<close>, from the lengths of numerator and denominator.\<close>

definition binaryExponent :: "rat \<Rightarrow> int" where
  "binaryExponent x =
     (case quotient_of \<bar>x\<bar> of (a, b) \<Rightarrow>
        let e0 = bitLength a - bitLength b in
        if 2 powi e0 \<le> \<bar>x\<bar> then e0 else e0 - 1)"

definition binary64 :: "rat \<Rightarrow> rat" where
  "binary64 x =
     (if x = 0 then 0
      else let e = binaryExponent x;
               m = roundHalfEven (\<bar>x\<bar> * 2 powi (52 - e))
           in sgn x * of_int m * 2 powi (e - 52))"

definition jsDivide :: "int \<Rightarrow> int \<Rightarrow> rat" where
  "jsDivide a b = binary64 (of_int a / of_int b)"

text \<open>
  The sum \<^verbatim>\<open>a + b\<close> of two numbers that are integers: the exact sum rounded to binary64,
  which is an integer again (\<open>jsAdd_value\<close>), and the exact sum as long as that is within
  \<open>\<plusminus> 2\<^sup>5\<^sup>3\<close> (\<open>jsAdd_exact\<close>).
\<close>

definition jsAdd :: "int \<Rightarrow> int \<Rightarrow> int" where
  "jsAdd a b = \<lfloor>binary64 (of_int a + of_int b)\<rfloor>"

text \<open>
  \<^verbatim>\<open>x.toFixed(2)\<close> for \<open>\<bar>x\<bar> < 10\<^sup>2\<^sup>1\<close>: the integer \<open>n\<close> for which \<open>n / 100\<close> is nearest to
  \<open>\<bar>x\<bar>\<close> (the larger one of two), written with two decimals after the sign.
\<close>

definition hundredths :: "rat \<Rightarrow> int" where
  "hundredths x = \<lfloor>\<bar>x\<bar> * 100 + 1 / 2\<rfloor>"

definition toFixed2 :: "rat \<Rightarrow> string" where
  "toFixed2 x =
     (let n = hundredths x in
      (if x < 0 then ''-'' else []) @ decimal (n div 100) @ ''.''
        @ padStart 2 (decimal (n mod 100)))"

text \<open>
  \<^verbatim>\<open>parseFloat\<close> on the numerals \<^verbatim>\<open>toFixed\<close> writes (sign, digits, point, digits): their
  decimal value, rounded to binary64.
\<close>

definition digitsValue :: "string \<Rightarrow> int" where
  "digitsValue s = foldl (\<lambda>a c. 10 * a + (of_char c - 48)) 0 s"

definition parseFloat :: "string \<Rightarrow> rat" where
  "parseFloat s =
     (let neg = (s \<noteq> [] \<and> hd s = CHR ''-'');
          body = (if neg then tl s else s);
          ip = takeWhile (\<lambda>c. c \<noteq> CHR ''.'') body;
          fp = drop (length ip + 1) body;
          v = of_int (digitsValue ip) + of_int (digitsValue fp) / 10 ^ length fp
      in binary64 (if neg then - v else v))"

section \<open>Persistence and the cycle's first half: \<^verbatim>\<open>aggregateGameResults\<close>\<close>

record leaderboard_entry =
  le_name :: string
  matchesPlayed :: int
  wins :: int
  totalKills :: int
  totalDeaths :: int

text \<open>\<^verbatim>\<open>kd\<close> is the string of \<^verbatim>\<open>toFixed(2)\<close> or the number \<^verbatim>\<open>totalKills\<close>.\<close>

datatype kd_value = KdNumber int | KdString string

record ranked_entry = leaderboard_entry +
  kd :: kd_value

text \<open>
  The files the engine owns, its two global variables, and one fact about the process:
  whether \<^verbatim>\<open>Object.prototype\<close>, from which every plain object inherits, has been given
  enumerable members by the leaderboard loop (see \<open>countAppearance\<close> below). Only that
  loop is affected by them: the loops over the players of a team read \<^verbatim>\<open>.name\<close> of an
  inherited member, find none, and skip it.
  \<open>games_json = None\<close> is a \<^verbatim>\<open>games.json\<close> that cannot be read or parsed.
\<close>

record server_state =
  games_json :: "game_result list option"
  leaderboard_json :: "ranked_entry list"
  gameResultsData :: "game_result list"
  leaderboardData :: "ranked_entry list"
  prototypePolluted :: bool

definition loadPersistedGames :: "server_state \<Rightarrow> game_result list" where
  "loadPersistedGames st = (case games_json st of None \<Rightarrow> [] | Some games \<Rightarrow> games)"

definition saveGameResults :: "game_result list \<Rightarrow> server_state \<Rightarrow> server_state" where
  "saveGameResults games st = st\<lparr>games_json := Some games\<rparr>"

text \<open>
  What the retrieval phase of a cycle ends with: an exception (caught by the function's
  \<^verbatim>\<open>catch\<close>), no \<^verbatim>\<open>backup_round*.txt\<close> file, or the array \<^verbatim>\<open>fileInfos\<close> of the records that
  were downloaded and decoded.
\<close>

datatype retrieval = RetrievalError | NoBackupFiles | Snapshots "file_info list"

definition aggregateGameResults ::
  "retrieval \<Rightarrow> server_state \<Rightarrow> game_result list \<times> server_state"
where
  "aggregateGameResults r st =
     (case r of
        RetrievalError \<Rightarrow> ([], st)
      | NoBackupFiles \<Rightarrow> ([], st)
      | Snapshots fileInfos \<Rightarrow>
          (case resolveAll (groupFilesIntoGames fileInfos) of
             Inl e \<Rightarrow> ([], st)
           | Inr gameResults \<Rightarrow> (gameResults, saveGameResults gameResults st)))"

section \<open>Leaderboard: \<^verbatim>\<open>aggregateLeaderboardFromGames\<close>\<close>

text \<open>
  \<^verbatim>\<open>tempLeaderboard\<close> is a plain object used as a dictionary: the list of its own entries
  in insertion order. \<^verbatim>\<open>tempLeaderboard[name]\<close> also finds the members that every object
  inherits; they are truthy, so for such a name no entry is created and the increments go
  to the inherited member, not to \<^verbatim>\<open>tempLeaderboard\<close>. For eleven of the twelve names that
  member is a function, and the writes stay on it. For \<^verbatim>\<open>__proto__\<close> it is \<^verbatim>\<open>Object.prototype\<close>
  itself: the increments create the enumerable members \<^verbatim>\<open>matchesPlayed\<close>, \<^verbatim>\<open>totalKills\<close> and
  \<^verbatim>\<open>totalDeaths\<close> there, with the value \<^verbatim>\<open>NaN\<close>, and every plain object inherits them from then
  on (\<open>namesPrototype\<close> and \<open>leaderboardLoop\<close> below).
\<close>

definition objectPrototypeKeys :: "string list" where
  "objectPrototypeKeys =
     [''constructor'', ''__proto__'', ''__defineGetter__'', ''__defineSetter__'',
      ''__lookupGetter__'', ''__lookupSetter__'', ''hasOwnProperty'', ''isPrototypeOf'',
      ''propertyIsEnumerable'', ''toLocaleString'', ''toString'', ''valueOf'']"

text \<open>The body of the \<^verbatim>\<open>forEach\<close> over a roster, on the own entries of \<^verbatim>\<open>tempLeaderboard\<close>.\<close>

definition countAppearance ::
  "(string \<times> leaderboard_entry) list \<Rightarrow> player_stat \<Rightarrow> (string \<times> leaderboard_entry) list"
where
  "countAppearance tempLeaderboard player =
     (let name = ps_name player in
      if map_of tempLeaderboard name = None \<and> List.member objectPrototypeKeys name
      then tempLeaderboard
      else
        let e = (case map_of tempLeaderboard name of
                   None \<Rightarrow> \<lparr>le_name = name, matchesPlayed = 0, wins = 0,
                             totalKills = 0, totalDeaths = 0\<rparr>
                 | Some e \<Rightarrow> e)
        in AList.update name
             (e\<lparr>matchesPlayed := jsAdd (matchesPlayed e) 1,
                totalKills := jsAdd (totalKills e) (ps_kills player),
                totalDeaths := jsAdd (totalDeaths e) (ps_deaths player)\<rparr>) tempLeaderboard)"

text \<open>
  \<^verbatim>\<open>tempLeaderboard[player.name].wins += 1\<close>. Every member of the winning roster was
  counted by the loop before, so a name without an entry is an inherited one.
\<close>

definition creditWin ::
  "(string \<times> leaderboard_entry) list \<Rightarrow> player_stat \<Rightarrow> (string \<times> leaderboard_entry) list"
where
  "creditWin tempLeaderboard player =
     (case map_of tempLeaderboard (ps_name player) of
        None \<Rightarrow> tempLeaderboard
      | Some e \<Rightarrow>
          AList.update (ps_name player) (e\<lparr>wins := jsAdd (wins e) 1\<rparr>) tempLeaderboard)"

text \<open>\<^verbatim>\<open>parseInt(n || "0", 10)\<close> on a number that is an integer.\<close>

definition parseIntOrZero :: "int \<Rightarrow> int" where
  "parseIntOrZero n = (if n = 0 then 0 else n)"

text \<open>
  One game of the loop, on \<^verbatim>\<open>tempLeaderboard\<close>, when \<^verbatim>\<open>for (let team in game.players)\<close> meets
  the two rosters only.
\<close>

definition leaderboardStep ::
  "(string \<times> leaderboard_entry) list \<Rightarrow> game_result \<Rightarrow> (string \<times> leaderboard_entry) list"
where
  "leaderboardStep tempLeaderboard game =
     (let t1 = foldl countAppearance tempLeaderboard (ro_team1 (players game));
          t2 = foldl countAppearance t1 (ro_team2 (players game));
          score1 = parseIntOrZero (sc_team1 (finalScore game));
          score2 = parseIntOrZero (sc_team2 (finalScore game))
      in if score1 \<noteq> score2
         then foldl creditWin t2
                (if score1 > score2 then ro_team1 (players game) else ro_team2 (players game))
         else t2)"

text \<open>A roster of the game lists the name \<^verbatim>\<open>__proto__\<close>: counting it writes to the prototype.\<close>

definition namesPrototype :: "game_result \<Rightarrow> bool" where
  "namesPrototype game =
     List.member (map ps_name (ro_team1 (players game) @ ro_team2 (players game))) ''__proto__''"

text \<open>
  The loop over the games. \<^verbatim>\<open>for (let team in game.players)\<close> takes the keys of the object
  and of its prototypes when it starts. Once the prototype has the enumerable members, the
  loop of the next game meets \<^verbatim>\<open>matchesPlayed\<close> after the two rosters,
  \<^verbatim>\<open>game.players["matchesPlayed"]\<close> is \<^verbatim>\<open>NaN\<close>, and \<^verbatim>\<open>NaN.forEach\<close> throws a \<^verbatim>\<open>TypeError\<close>
  that nothing catches. The first argument is whether the prototype has those members.
\<close>

fun leaderboardLoop ::
  "bool \<Rightarrow> (string \<times> leaderboard_entry) list \<Rightarrow> game_result list
    \<Rightarrow> js_error + bool \<times> (string \<times> leaderboard_entry) list"
where
  "leaderboardLoop polluted tempLeaderboard [] = Inr (polluted, tempLeaderboard)"
| "leaderboardLoop polluted tempLeaderboard (game # rest) =
     (if polluted then Inl TypeError
      else leaderboardLoop (namesPrototype game) (leaderboardStep tempLeaderboard game) rest)"

definition withKd :: "leaderboard_entry \<Rightarrow> ranked_entry" where
  "withKd p =
     \<lparr>le_name = le_name p, matchesPlayed = matchesPlayed p, wins = wins p,
      totalKills = totalKills p, totalDeaths = totalDeaths p,
      kd = (if totalDeaths p > 0 then KdString (toFixed2 (jsDivide (totalKills p) (totalDeaths p)))
            else KdNumber (totalKills p))\<rparr>"

text \<open>
  \<^verbatim>\<open>Object.values\<close>: the entries whose key is an array index first, in ascending numeric
  order, then the others in insertion order.
\<close>

definition isArrayIndex :: "string \<Rightarrow> bool" where
  "isArrayIndex s =
     (s \<noteq> [] \<and> list_all (\<lambda>c. List.member ''0123456789'' c) s
      \<and> decimal (digitsValue s) = s \<and> digitsValue s < 4294967295)"

definition objectValues :: "(string \<times> 'a) list \<Rightarrow> 'a list" where
  "objectValues obj =
     map snd (sort_key (\<lambda>kv. digitsValue (fst kv)) (filter (\<lambda>kv. isArrayIndex (fst kv)) obj)
              @ filter (\<lambda>kv. \<not> isArrayIndex (fst kv)) obj)"

text \<open>The comparator \<^verbatim>\<open>parseFloat(b.kd) - parseFloat(a.kd)\<close> orders by this number, descending.\<close>

definition kdNumber :: "ranked_entry \<Rightarrow> rat" where
  "kdNumber e = (case kd e of KdNumber k \<Rightarrow> of_int k | KdString s \<Rightarrow> parseFloat s)"

text \<open>
  The function returns the sorted leaderboard and writes it to \<^verbatim>\<open>leaderboard.json\<close>, or
  throws.
\<close>

definition aggregateLeaderboardFromGames ::
  "game_result list \<Rightarrow> server_state \<Rightarrow> (js_error + ranked_entry list) \<times> server_state"
where
  "aggregateLeaderboardFromGames gameResults st =
     (case leaderboardLoop (prototypePolluted st) [] gameResults of
        Inl e \<Rightarrow> (Inl e, st\<lparr>prototypePolluted := True\<rparr>)
      | Inr (polluted, tempLeaderboard) \<Rightarrow>
          let newLeaderboard =
                sort_key (\<lambda>e. - kdNumber e) (map withKd (objectValues tempLeaderboard))
          in (Inr newLeaderboard,
              st\<lparr>leaderboard_json := newLeaderboard, prototypePolluted := polluted\<rparr>))"

section \<open>History reconciliation: \<^verbatim>\<open>updateAllResults\<close>\<close>

text \<open>The body of \<^verbatim>\<open>newGames.forEach\<close>: \<^verbatim>\<open>find\<close> returns the first entry with the same key.\<close>

definition mergeGame :: "game_result list \<Rightarrow> game_result \<Rightarrow> game_result list" where
  "mergeGame persistedGames newGame =
     (case find (\<lambda>g. startTime g = startTime newGame \<and> gr_map g = gr_map newGame) persistedGames of
        None \<Rightarrow> persistedGames @ [newGame]
      | Some exists \<Rightarrow> persistedGames)"

text \<open>
  The state that a call leaves, whether it returns or the leaderboard throws; in the
  latter case \<^verbatim>\<open>leaderboardData\<close> is not assigned.
\<close>

definition updateAllResults :: "retrieval \<Rightarrow> server_state \<Rightarrow> server_state" where
  "updateAllResults r st =
     (case aggregateGameResults r st of
        (newGames, st1) \<Rightarrow>
          let persistedGames = foldl mergeGame (loadPersistedGames st1) newGames;
              st2 = saveGameResults persistedGames st1;
              st3 = st2\<lparr>gameResultsData := persistedGames\<rparr>
          in case aggregateLeaderboardFromGames persistedGames st3 of
               (Inr leaderboard, st4) \<Rightarrow> st4\<lparr>leaderboardData := leaderboard\<rparr>
             | (Inl e, st4) \<Rightarrow> st4)"

section \<open>Current session: \<^verbatim>\<open>aggregateCurrentGame\<close>\<close>

text \<open>The rosters of a current game hold \<^verbatim>\<open>{ name }\<close> objects: the names.\<close>

record current_rosters =
  cr_team1 :: "string list"
  cr_team2 :: "string list"

record current_game =
  cg_startTime :: string
  currentSnapshotTime :: string
  cg_duration :: string
  cg_map :: string
  currentScore :: score
  currentRound :: int
  cg_players :: current_rosters

text \<open>
  The function from \<^verbatim>\<open>gameGroups\<close> on; \<open>now\<close> is \<^verbatim>\<open>Date.now()\<close>. \<open>None\<close> is \<^verbatim>\<open>null\<close>. The last
  timestamp is read before the group is sorted again.
\<close>

definition currentGameOfGroups :: "int \<Rightarrow> file_info list list \<Rightarrow> current_game option" where
  "currentGameOfGroups now gameGroups =
     (if gameGroups = [] then None
      else
        let currentGroup0 = gameGroups ! (length gameGroups - 1) in
        if length currentGroup0 = 0 then None
        else
          let lastTimestamp = fi_timestamp (currentGroup0 ! (length currentGroup0 - 1)) in
          if now - lastTimestamp > 90 * 1000 then None
          else
            let currentGroup = sortByTimestamp currentGroup0;
                startTime = fi_timestamp (currentGroup ! 0);
                currentSnapshot = currentGroup ! (length currentGroup - 1);
                endTime = fi_timestamp currentSnapshot;
                durationSeconds = (endTime - startTime) div 1000
            in Some \<lparr>cg_startTime = toISOString startTime,
                      currentSnapshotTime = toISOString endTime,
                      cg_duration = formatDuration durationSeconds,
                      cg_map = mapOrUnknown (sf_map (fi_data currentSnapshot)),
                      currentScore = getFinalScore (fi_data currentSnapshot),
                      currentRound = Max (set (map fi_round currentGroup)),
                      cg_players =
                        \<lparr>cr_team1 = map ps_name (extractPlayers (PlayersOnTeam1 (fi_data currentSnapshot))),
                         cr_team2 = map ps_name (extractPlayers (PlayersOnTeam2 (fi_data currentSnapshot)))\<rparr>\<rparr>)"

definition aggregateCurrentGame :: "int \<Rightarrow> retrieval \<Rightarrow> current_game option" where
  "aggregateCurrentGame now r =
     (case r of
        RetrievalError \<Rightarrow> None
      | NoBackupFiles \<Rightarrow> None
      | Snapshots fileInfos \<Rightarrow> currentGameOfGroups now (groupFilesIntoGames fileInfos))"

section \<open>What the leaderboard is to hold\<close>







definition credited ::
  "leaderboard_entry \<Rightarrow> player_stat list \<Rightarrow> player_stat list \<Rightarrow> leaderboard_entry"
where
  "credited e played won =
     e\<lparr>matchesPlayed := matchesPlayed e + int (length played),
       wins := wins e + int (length won),
       totalKills := totalKills e + sum_list (map ps_kills played),
       totalDeaths := totalDeaths e + sum_list (map ps_deaths played)\<rparr>"




section \<open>Example inputs\<close>

text \<open>
  Snapshots of a match on one map: Alice on team 1, Bob on team 2, and the score in the
  first half.
\<close>

definition snapshot :: "string \<Rightarrow> int \<Rightarrow> int \<Rightarrow> string \<Rightarrow> int \<Rightarrow> int \<Rightarrow> file_info" where
  "snapshot nm ts rnd mp s1 s2 =
     \<lparr>fi_name = nm, fi_timestamp = ts, fi_round = rnd,
      fi_data = \<lparr>sf_map = Some mp,
                 FirstHalfScore = Some \<lparr>hs_team1 = Some s1, hs_team2 = Some s2\<rparr>,
                 SecondHalfScore = None, OvertimeScore = None,
                 PlayersOnTeam1 = Some [(''1'', \<lparr>pe_name = Some ''Alice'', pe_kills = Some 1, pe_deaths = Some 0\<rparr>)],
                 PlayersOnTeam2 = Some [(''2'', \<lparr>pe_name = Some ''Bob'', pe_kills = Some 0, pe_deaths = Some 1\<rparr>)]\<rparr>\<rparr>"

definition round1 :: file_info where
  "round1 = snapshot ''backup_round01.txt'' 1739512453000 1 ''X'' 0 0"
definition round2 :: file_info where
  "round2 = snapshot ''backup_round02.txt'' 1739512513000 2 ''X'' 1 0"
definition round3 :: file_info where
  "round3 = snapshot ''backup_round03.txt'' 1739512573000 3 ''X'' 2 1"
definition nextRound1 :: file_info where
  "nextRound1 = snapshot ''backup_round01.txt'' 1739516053000 1 ''X'' 0 0"
definition otherMap :: file_info where
  "otherMap = snapshot ''backup_round05.txt'' 1739516053000 5 ''Y'' 3 3"

definition tiedRound :: file_info where
  "tiedRound = snapshot ''backup_round06.txt'' 1739512813000 6 ''X'' 3 3"

text \<open>The result of the match \<open>[round1, round2, round3]\<close>, and one of the day before.\<close>

definition firstMatch :: game_result where
  "firstMatch =
     \<lparr>startTime = ''2025-02-14T05:54:13.000Z'', endTime = ''2025-02-14T05:56:13.000Z'',
      duration = ''00:02:00'', gr_map = ''X'',
      finalScore = \<lparr>sc_team1 = 2, sc_team2 = 1\<rparr>,
      players = \<lparr>ro_team1 = [\<lparr>ps_name = ''Alice'', ps_kills = 1, ps_deaths = 0\<rparr>],
                 ro_team2 = [\<lparr>ps_name = ''Bob'', ps_kills = 0, ps_deaths = 1\<rparr>]\<rparr>,
      winner = [''Alice''], loser = [''Bob'']\<rparr>"

definition earlierMatch :: game_result where
  "earlierMatch =
     \<lparr>startTime = ''2025-02-13T20:00:00.000Z'', endTime = ''2025-02-13T20:31:40.000Z'',
      duration = ''00:31:40'', gr_map = ''Y'',
      finalScore = \<lparr>sc_team1 = 7, sc_team2 = 13\<rparr>,
      players = \<lparr>ro_team1 = [\<lparr>ps_name = ''Alice'', ps_kills = 9, ps_deaths = 15\<rparr>],
                 ro_team2 = [\<lparr>ps_name = ''Bob'', ps_kills = 15, ps_deaths = 9\<rparr>]\<rparr>,
      winner = [''Bob''], loser = [''Alice'']\<rparr>"

definition tiedMatch :: game_result where
  "tiedMatch =
     \<lparr>startTime = ''2025-02-14T05:54:13.000Z'', endTime = ''2025-02-14T06:00:13.000Z'',
      duration = ''00:06:00'', gr_map = ''X'',
      finalScore = \<lparr>sc_team1 = 3, sc_team2 = 3\<rparr>,
      players = \<lparr>ro_team1 = [\<lparr>ps_name = ''Alice'', ps_kills = 1, ps_deaths = 0\<rparr>],
                 ro_team2 = [\<lparr>ps_name = ''Bob'', ps_kills = 0, ps_deaths = 1\<rparr>]\<rparr>,
      winner = [], loser = []\<rparr>"

text \<open>A session seen in its first snapshot only: no time has passed and nobody has scored.\<close>

definition justStarted :: current_game where
  "justStarted =
     \<lparr>cg_startTime = ''2025-02-14T05:54:13.000Z'',
      currentSnapshotTime = ''2025-02-14T05:54:13.000Z'',
      cg_duration = ''00:00:00'', cg_map = ''X'',
      currentScore = \<lparr>sc_team1 = 0, sc_team2 = 0\<rparr>, currentRound = 1,
      cg_players = \<lparr>cr_team1 = [''Alice''], cr_team2 = [''Bob'']\<rparr>\<rparr>"


text \<open>
  A match whose last snapshot gave Cy a death count of \<open>-1\<close>, and an entry whose totals
  are beyond any match played.
\<close>

definition strayDeaths :: game_result where
  "strayDeaths =
     \<lparr>startTime = ''2025-02-16T18:00:00.000Z'', endTime = ''2025-02-16T18:10:00.000Z'',
      duration = ''00:10:00'', gr_map = ''X'',
      finalScore = \<lparr>sc_team1 = 1, sc_team2 = 0\<rparr>,
      players = \<lparr>ro_team1 = [\<lparr>ps_name = ''Cy'', ps_kills = 3, ps_deaths = - 1\<rparr>],
                 ro_team2 = [\<lparr>ps_name = ''Di'', ps_kills = 0, ps_deaths = 3\<rparr>]\<rparr>,
      winner = [''Cy''], loser = [''Di'']\<rparr>"



definition hugeTotals :: leaderboard_entry where
  "hugeTotals =
     \<lparr>le_name = ''Ed'', matchesPlayed = 1, wins = 0,
      totalKills = 49528900115509, totalDeaths = 98077029931701\<rparr>"

definition aliceTotals :: leaderboard_entry where
  "aliceTotals =
     \<lparr>le_name = ''Alice'', matchesPlayed = 2, wins = 1, totalKills = 10, totalDeaths = 15\<rparr>"

text \<open>The state at startup, and a state whose \<^verbatim>\<open>games.json\<close> holds the earlier match.\<close>

definition initialState :: server_state where
  "initialState =
     \<lparr>games_json = Some [], leaderboard_json = [], gameResultsData = [], leaderboardData = [],
      prototypePolluted = False\<rparr>"

definition persistedState :: server_state where
  "persistedState =
     \<lparr>games_json = Some [earlierMatch], leaderboard_json = [], gameResultsData = [earlierMatch],
      leaderboardData = [], prototypePolluted = False\<rparr>"


lemmas example_defs = round1_def round2_def round3_def nextRound1_def otherMap_def tiedRound_def
  snapshot_def

section \<open>Segmentation partitions the sorted input\<close>

lemma groupStep_concat:
  "groupStep (gs, cur) x = (gs', cur') \<Longrightarrow> concat gs' @ cur' = concat gs @ cur @ [x]"
  by (auto simp: groupStep_def split: if_splits)

lemma foldl_groupStep_concat:
  "foldl groupStep (gs, cur) xs = (gs', cur') \<Longrightarrow> concat gs' @ cur' = concat gs @ cur @ xs"
proof (induction xs arbitrary: gs cur)
  case Nil
  then show ?case by simp
next
  case (Cons x xs)
  obtain gs1 cur1 where s: "groupStep (gs, cur) x = (gs1, cur1)"
    by (cases "groupStep (gs, cur) x")
  from Cons.prems s have "foldl groupStep (gs1, cur1) xs = (gs', cur')" by simp
  from Cons.IH [OF this] groupStep_concat [OF s] show ?case by simp
qed

lemma groupStep_nonempty:
  "groupStep (gs, cur) x = (gs', cur') \<Longrightarrow> [] \<notin> set gs \<Longrightarrow> [] \<notin> set gs' \<and> cur' \<noteq> []"
  by (auto simp: groupStep_def split: if_splits)

lemma foldl_groupStep_nonempty:
  "foldl groupStep (gs, cur) xs = (gs', cur') \<Longrightarrow> [] \<notin> set gs \<Longrightarrow> [] \<notin> set gs'"
proof (induction xs arbitrary: gs cur)
  case Nil
  then show ?case by simp
next
  case (Cons x xs)
  obtain gs1 cur1 where s: "groupStep (gs, cur) x = (gs1, cur1)"
    by (cases "groupStep (gs, cur) x")
  from Cons.prems s have f: "foldl groupStep (gs1, cur1) xs = (gs', cur')" by simp
  from groupStep_nonempty [OF s Cons.prems(2)] have "[] \<notin> set gs1" by simp
  from Cons.IH [OF f this] show ?case .
qed

lemma concat_groupFilesIntoGames:
  "concat (groupFilesIntoGames fs) = sortByTimestamp fs"
proof -
  obtain gs cur where f: "foldl groupStep ([], []) (sortByTimestamp fs) = (gs, cur)"
    by (cases "foldl groupStep ([], []) (sortByTimestamp fs)")
  from foldl_groupStep_concat [OF f] have "concat gs @ cur = sortByTimestamp fs" by simp
  with f show ?thesis by (auto simp: groupFilesIntoGames_def)
qed

lemma sorted_concat_member:
  "sorted (map f (concat gs)) \<Longrightarrow> g \<in> set gs \<Longrightarrow> sorted (map f g)"
  by (induction gs) (auto simp: sorted_append)

lemma groups_nonempty: "[] \<notin> set (groupFilesIntoGames fs)"
proof -
  obtain gs cur where f: "foldl groupStep ([], []) (sortByTimestamp fs) = (gs, cur)"
    by (cases "foldl groupStep ([], []) (sortByTimestamp fs)")
  from foldl_groupStep_nonempty [OF f] have "[] \<notin> set gs" by simp
  with f show ?thesis by (auto simp: groupFilesIntoGames_def)
qed

lemma insort_key_snoc:
  "f a \<le> f x \<Longrightarrow> insort_key f a (ys @ [x]) = insort_key f a ys @ [x]"
  by (induction ys) auto

lemma sort_key_snoc:
  "\<forall>y\<in>set fs. f y \<le> f x \<Longrightarrow> sort_key f (fs @ [x]) = sort_key f fs @ [x]"
  by (induction fs) (auto simp: insort_key_snoc)

lemma foldl_groupStep_open:
  "foldl groupStep ([], []) xs = (gs, cur) \<Longrightarrow> xs \<noteq> [] \<Longrightarrow> cur \<noteq> []"
proof (induction xs arbitrary: gs cur rule: rev_induct)
  case Nil
  then show ?case by simp
next
  case (snoc x xs)
  obtain gs1 cur1 where s: "foldl groupStep ([], []) xs = (gs1, cur1)"
    by (cases "foldl groupStep ([], []) xs")
  with snoc.prems have "groupStep (gs1, cur1) x = (gs, cur)" by simp
  then show ?case by (auto simp: groupStep_def split: if_splits)
qed

lemma sortByTimestamp_Nil_iff: "sortByTimestamp xs = [] \<longleftrightarrow> xs = []"
  by (metis sortByTimestamp_def length_sort length_0_conv)

text \<open>
  Claim C3. The groups of \<^verbatim>\<open>groupFilesIntoGames\<close> partition the input: put one after the
  other they are the input sorted by timestamp, so every record is in exactly one group,
  none is dropped or repeated, and every group is in ascending order of timestamp.
\<close>

theorem groupFilesIntoGames_partition:
  "concat (groupFilesIntoGames fileInfos) = sortByTimestamp fileInfos
   \<and> mset (concat (groupFilesIntoGames fileInfos)) = mset fileInfos
   \<and> (\<forall>g \<in> set (groupFilesIntoGames fileInfos). sorted (map fi_timestamp g))"
proof -
  have c: "concat (groupFilesIntoGames fileInfos) = sortByTimestamp fileInfos"
    by (rule concat_groupFilesIntoGames)
  have m: "mset (sortByTimestamp fileInfos) = mset fileInfos"
    by (simp add: sortByTimestamp_def)
  have s: "sorted (map fi_timestamp (sortByTimestamp fileInfos))"
    by (simp add: sortByTimestamp_def)
  from c s have "\<forall>g \<in> set (groupFilesIntoGames fileInfos). sorted (map fi_timestamp g)"
    by (auto intro: sorted_concat_member [where gs = "groupFilesIntoGames fileInfos"])
  with c m show ?thesis by simp
qed

theorem groupFilesIntoGames_partition_witness:
  "groupFilesIntoGames [round3, nextRound1, round1, round2] = [[round1, round2, round3], [nextRound1]]
   \<and> sorted (map fi_timestamp [round1, round2, round3])
   \<and> mset (concat [[round1, round2, round3], [nextRound1]]) = mset [round3, nextRound1, round1, round2]"
proof -
  have g: "groupFilesIntoGames [round3, nextRound1, round1, round2] = [[round1, round2, round3], [nextRound1]]"
    by code_simp
  note p = groupFilesIntoGames_partition [of "[round3, nextRound1, round1, round2]", unfolded g]
  from p have s: "sorted (map fi_timestamp [round1, round2, round3])"
    by simp
  from p have m: "mset (concat [[round1, round2, round3], [nextRound1]])
      = mset [round3, nextRound1, round1, round2]"
    by blast
  from g s m show ?thesis by blast
qed

text \<open>
  Claim C4. A record that is processed when a group is open (there are records before it,
  none of them later than it) starts a new group when its round is 1, else when its map is
  not the map of the open group's first record, and joins the open group otherwise.
\<close>

theorem segmentation_boundaries:
  assumes later: "\<forall>y \<in> set fileInfos. fi_timestamp y \<le> fi_timestamp info"
    and nonempty: "fileInfos \<noteq> []"
  shows "groupFilesIntoGames (fileInfos @ [info]) =
     (let groups = groupFilesIntoGames fileInfos; currentGame = last groups in
      if fi_round info = 1 then groups @ [[info]]
      else if sf_map (fi_data info) \<noteq> sf_map (fi_data (hd currentGame)) then groups @ [[info]]
      else butlast groups @ [currentGame @ [info]])"
proof -
  obtain gs cur where f: "foldl groupStep ([], []) (sortByTimestamp fileInfos) = (gs, cur)"
    by (cases "foldl groupStep ([], []) (sortByTimestamp fileInfos)")
  from nonempty have "sortByTimestamp fileInfos \<noteq> []"
    by (simp add: sortByTimestamp_Nil_iff)
  from foldl_groupStep_open [OF f this] have cur: "cur \<noteq> []" .
  with f have old: "groupFilesIntoGames fileInfos = gs @ [cur]"
    by (simp add: groupFilesIntoGames_def)
  from later have "sortByTimestamp (fileInfos @ [info]) = sortByTimestamp fileInfos @ [info]"
    by (simp add: sortByTimestamp_def sort_key_snoc)
  with f have new: "groupFilesIntoGames (fileInfos @ [info]) =
      (case groupStep (gs, cur) info of (groups, currentGame) \<Rightarrow>
         if length currentGame > 0 then groups @ [currentGame] else groups)"
    by (simp add: groupFilesIntoGames_def)
  from cur have hd: "cur ! 0 = hd cur"
    by (simp add: hd_conv_nth)
  show ?thesis
    unfolding new old using cur by (simp add: groupStep_def hd Let_def)
qed

theorem segmentation_boundaries_witness:
  "groupFilesIntoGames ([round1, round2] @ [nextRound1]) = [[round1, round2], [nextRound1]]
   \<and> groupFilesIntoGames ([round1, round2] @ [otherMap]) = [[round1, round2], [otherMap]]
   \<and> groupFilesIntoGames ([round1, round2] @ [round3]) = [[round1, round2, round3]]"
proof -
  have g: "groupFilesIntoGames [round1, round2] = [[round1, round2]]"
    by code_simp
  have a: "\<forall>y \<in> set [round1, round2]. fi_timestamp y \<le> fi_timestamp nextRound1"
    by (simp add: example_defs)
  have b: "\<forall>y \<in> set [round1, round2]. fi_timestamp y \<le> fi_timestamp otherMap"
    by (simp add: example_defs)
  have c: "\<forall>y \<in> set [round1, round2]. fi_timestamp y \<le> fi_timestamp round3"
    by (simp add: example_defs)
  have ne: "[round1, round2] \<noteq> []" by simp
  show ?thesis
    using segmentation_boundaries [OF a ne] segmentation_boundaries [OF b ne]
      segmentation_boundaries [OF c ne]
    unfolding g by (simp add: example_defs)
qed

section \<open>Groups are never empty\<close>

lemma resolveGroup_error_iff: "resolveGroup g = Inl e \<longleftrightarrow> g = []"
  by (cases e) (simp add: resolveGroup_def Let_def sortByTimestamp_Nil_iff)

lemma resolveAll_defined:
  "[] \<notin> set gs \<Longrightarrow> \<exists>results. resolveAll gs = Inr results"
proof (induction gs)
  case Nil
  then show ?case by simp
next
  case (Cons g gs)
  then have "g \<noteq> []" by auto
  then obtain r where r: "resolveGroup g = Inr r"
    by (cases "resolveGroup g") (simp_all add: resolveGroup_error_iff)
  from Cons obtain rs where "resolveAll gs = Inr rs" by auto
  with r show ?case by simp
qed

lemma last_groupFilesIntoGames:
  "groupFilesIntoGames fs \<noteq> [] \<Longrightarrow> last (groupFilesIntoGames fs) \<noteq> []"
  using groups_nonempty [of fs] last_in_set by metis

text \<open>
  Claim C10. No group of \<^verbatim>\<open>groupFilesIntoGames\<close> is empty, and the empty input gives no
  group. So the indices \<open>0\<close> and \<open>length - 1\<close> that the resolver and the current-session
  detector read are in range in every group: resolving never raises the \<^verbatim>\<open>TypeError\<close> of an
  empty group.
\<close>

theorem session_groups_nonempty:
  "groupFilesIntoGames [] = []
   \<and> (\<forall>g \<in> set (groupFilesIntoGames fileInfos).
         g \<noteq> [] \<and> 0 < length (sortByTimestamp g) \<and> resolveGroup g \<noteq> Inl TypeError)
   \<and> (\<exists>results. resolveAll (groupFilesIntoGames fileInfos) = Inr results)
   \<and> (groupFilesIntoGames fileInfos \<noteq> [] \<longrightarrow> 0 < length (last (groupFilesIntoGames fileInfos)))"
proof -
  have e: "groupFilesIntoGames [] = []"
    by (simp add: groupFilesIntoGames_def sortByTimestamp_def)
  have n: "[] \<notin> set (groupFilesIntoGames fileInfos)"
    by (rule groups_nonempty)
  then have a: "\<forall>g \<in> set (groupFilesIntoGames fileInfos).
      g \<noteq> [] \<and> 0 < length (sortByTimestamp g) \<and> resolveGroup g \<noteq> Inl TypeError"
    by (auto simp: resolveGroup_error_iff sortByTimestamp_def)
  from n have r: "\<exists>results. resolveAll (groupFilesIntoGames fileInfos) = Inr results"
    by (rule resolveAll_defined)
  have l: "groupFilesIntoGames fileInfos \<noteq> [] \<longrightarrow> 0 < length (last (groupFilesIntoGames fileInfos))"
    using last_groupFilesIntoGames [of fileInfos] by simp
  from e a r l show ?thesis by blast
qed

theorem session_groups_nonempty_witness:
  "groupFilesIntoGames [round1, round2, nextRound1] = [[round1, round2], [nextRound1]]
   \<and> resolveGroup [round1, round2] \<noteq> Inl TypeError
   \<and> resolveGroup [nextRound1] \<noteq> Inl TypeError
   \<and> 0 < length (last [[round1, round2], [nextRound1]])"
proof -
  have g: "groupFilesIntoGames [round1, round2, nextRound1] = [[round1, round2], [nextRound1]]"
    by code_simp
  note p = session_groups_nonempty [of "[round1, round2, nextRound1]", unfolded g]
  from p have a: "resolveGroup [round1, round2] \<noteq> Inl TypeError" by simp
  from p have b: "resolveGroup [nextRound1] \<noteq> Inl TypeError" by simp
  from p have c: "0 < length (last [[round1, round2], [nextRound1]])" by blast
  from g a b c show ?thesis by blast
qed

section \<open>What the resolver emits\<close>

lemma resolveGroup_Some:
  assumes "resolveGroup g = Inr (Some r)"
  shows "g \<noteq> []"
    and "duration r = formatDuration ((fi_timestamp (last (sortByTimestamp g))
            - fi_timestamp (hd (sortByTimestamp g))) div 1000)"
    and "duration r \<noteq> ''00:00:00''"
    and "finalScore r = getFinalScore (fi_data (last (sortByTimestamp g)))"
    and "\<not> (sc_team1 (finalScore r) = 0 \<and> sc_team2 (finalScore r) = 0)"
    and "players r = \<lparr>ro_team1 = extractPlayers (PlayersOnTeam1 (fi_data (last (sortByTimestamp g)))),
                      ro_team2 = extractPlayers (PlayersOnTeam2 (fi_data (last (sortByTimestamp g))))\<rparr>"
    and "winner r = (if sc_team1 (finalScore r) = sc_team2 (finalScore r) then []
                     else if sc_team1 (finalScore r) > sc_team2 (finalScore r)
                     then map ps_name (ro_team1 (players r)) else map ps_name (ro_team2 (players r)))"
    and "loser r = (if sc_team1 (finalScore r) = sc_team2 (finalScore r) then []
                    else if sc_team1 (finalScore r) > sc_team2 (finalScore r)
                    then map ps_name (ro_team2 (players r)) else map ps_name (ro_team1 (players r)))"
proof -
  let ?s = "sortByTimestamp g"
  from assms have ne: "?s \<noteq> []"
    by (auto simp: resolveGroup_def Let_def split: if_splits)
  then show "g \<noteq> []" by (simp add: sortByTimestamp_Nil_iff)
  from ne have idx: "?s ! 0 = hd ?s" "?s ! (length ?s - 1) = last ?s"
    by (simp_all add: hd_conv_nth last_conv_nth)
  from assms ne have r: "r = \<lparr>startTime = toISOString (fi_timestamp (hd ?s)),
      endTime = toISOString (fi_timestamp (last ?s)),
      duration = formatDuration ((fi_timestamp (last ?s) - fi_timestamp (hd ?s)) div 1000),
      gr_map = mapOrUnknown (sf_map (fi_data (last ?s))),
      finalScore = getFinalScore (fi_data (last ?s)),
      players = \<lparr>ro_team1 = extractPlayers (PlayersOnTeam1 (fi_data (last ?s))),
                 ro_team2 = extractPlayers (PlayersOnTeam2 (fi_data (last ?s)))\<rparr>,
      winner = (if sc_team1 (getFinalScore (fi_data (last ?s))) = sc_team2 (getFinalScore (fi_data (last ?s))) then []
                else if sc_team1 (getFinalScore (fi_data (last ?s))) > sc_team2 (getFinalScore (fi_data (last ?s)))
                then map ps_name (extractPlayers (PlayersOnTeam1 (fi_data (last ?s))))
                else map ps_name (extractPlayers (PlayersOnTeam2 (fi_data (last ?s))))),
      loser = (if sc_team1 (getFinalScore (fi_data (last ?s))) = sc_team2 (getFinalScore (fi_data (last ?s))) then []
               else if sc_team1 (getFinalScore (fi_data (last ?s))) > sc_team2 (getFinalScore (fi_data (last ?s)))
               then map ps_name (extractPlayers (PlayersOnTeam2 (fi_data (last ?s))))
               else map ps_name (extractPlayers (PlayersOnTeam1 (fi_data (last ?s)))))\<rparr>"
    unfolding resolveGroup_def Let_def idx
    by (simp split: if_splits)
  from assms ne have nz: "formatDuration ((fi_timestamp (last ?s) - fi_timestamp (hd ?s)) div 1000) \<noteq> ''00:00:00''"
    and ns: "\<not> (sc_team1 (getFinalScore (fi_data (last ?s))) = 0 \<and> sc_team2 (getFinalScore (fi_data (last ?s))) = 0)"
    unfolding resolveGroup_def Let_def idx
    by (auto split: if_splits)
  from r show "duration r = formatDuration ((fi_timestamp (last ?s) - fi_timestamp (hd ?s)) div 1000)"
    by simp
  from r nz show "duration r \<noteq> ''00:00:00''" by simp
  from r show "finalScore r = getFinalScore (fi_data (last ?s))" by simp
  from r ns show "\<not> (sc_team1 (finalScore r) = 0 \<and> sc_team2 (finalScore r) = 0)" by simp
  from r show "players r = \<lparr>ro_team1 = extractPlayers (PlayersOnTeam1 (fi_data (last ?s))),
                      ro_team2 = extractPlayers (PlayersOnTeam2 (fi_data (last ?s)))\<rparr>"
    by simp
  from r show "winner r = (if sc_team1 (finalScore r) = sc_team2 (finalScore r) then []
                     else if sc_team1 (finalScore r) > sc_team2 (finalScore r)
                     then map ps_name (ro_team1 (players r)) else map ps_name (ro_team2 (players r)))"
    by simp
  from r show "loser r = (if sc_team1 (finalScore r) = sc_team2 (finalScore r) then []
                    else if sc_team1 (finalScore r) > sc_team2 (finalScore r)
                    then map ps_name (ro_team2 (players r)) else map ps_name (ro_team1 (players r)))"
    by simp
qed

lemma resolveGroup_discard:
  assumes "g \<noteq> []"
    and "formatDuration ((fi_timestamp (last (sortByTimestamp g))
            - fi_timestamp (hd (sortByTimestamp g))) div 1000) = ''00:00:00''
         \<or> getFinalScore (fi_data (last (sortByTimestamp g))) = \<lparr>sc_team1 = 0, sc_team2 = 0\<rparr>"
  shows "resolveGroup g = Inr None"
proof -
  let ?s = "sortByTimestamp g"
  from assms(1) have ne: "?s \<noteq> []" by (simp add: sortByTimestamp_Nil_iff)
  then have idx: "?s ! 0 = hd ?s" "?s ! (length ?s - 1) = last ?s"
    by (simp_all add: hd_conv_nth last_conv_nth)
  from assms(2) ne show ?thesis
    unfolding resolveGroup_def Let_def idx by auto
qed

text \<open>
  The duration of a span that is not negative reads \<^verbatim>\<open>00:00:00\<close> exactly when the span is
  zero whole seconds.
\<close>

lemma digitChar_zero_iff: "n < 10 \<Longrightarrow> digitChar n = CHR ''0'' \<longleftrightarrow> n = 0"
  by (auto simp: digitChar_def less_Suc_eq numeral_eq_Suc)

lemma decimal_digit: "n < 10 \<Longrightarrow> decimal n = [digitChar (nat n)]"
  by (simp add: decimal.simps [of n])

lemma decimal_more: "10 \<le> n \<Longrightarrow> decimal n = decimal (n div 10) @ [digitChar (nat (n mod 10))]"
  by (simp add: decimal.simps [of n])

lemma length_decimal_pos: "Suc 0 \<le> length (decimal n)"
  by (cases "n < 10") (simp_all add: decimal_digit decimal_more)

lemma jsRem_nonneg: "0 \<le> a \<Longrightarrow> 0 < b \<Longrightarrow> jsRem a b = a mod b"
  by (cases "a = 0") (simp_all add: jsRem_def sgn_if)

lemma jsToString_nonneg: "0 \<le> n \<Longrightarrow> jsToString n = decimal n"
  by (simp add: jsToString_def)

lemma length_decimal_two: "10 \<le> n \<Longrightarrow> n < 100 \<Longrightarrow> length (decimal n) = 2"
  by (simp add: decimal_more decimal_digit)

lemma length_padStart_two: "0 \<le> n \<Longrightarrow> n < 100 \<Longrightarrow> length (padStart 2 (decimal n)) = 2"
  by (cases "n < 10") (simp_all add: padStart_def decimal_digit length_decimal_two)

lemma decimal_zero_iff: "0 \<le> n \<Longrightarrow> decimal n = ''0'' \<longleftrightarrow> n = 0"
proof (cases "n < 10")
  case True
  assume "0 \<le> n"
  with True have "nat n < 10" by simp
  from digitChar_zero_iff [OF this] True \<open>0 \<le> n\<close> show ?thesis
    by (simp add: decimal_digit)
next
  case False
  then have "2 \<le> length (decimal n)"
    using length_decimal_pos [of "n div 10"] by (simp add: decimal_more)
  with False show ?thesis by auto
qed

lemma padStart_decimal_zero_iff:
  assumes "0 \<le> n"
  shows "padStart 2 (decimal n) = ''00'' \<longleftrightarrow> n = 0"
proof (cases "n < 10")
  case True
  with assms have "nat n < 10" by simp
  from digitChar_zero_iff [OF this] True assms show ?thesis
    by (simp add: decimal_digit padStart_def)
next
  case False
  then have d: "decimal n = decimal (n div 10) @ [digitChar (nat (n mod 10))]"
    by (simp add: decimal_more)
  with length_decimal_pos [of "n div 10"] have "2 \<le> length (decimal n)"
    by simp
  then have p: "padStart 2 (decimal n) = decimal n"
    by (simp add: padStart_def)
  have "decimal n \<noteq> ''00''"
  proof
    assume "decimal n = ''00''"
    moreover have "''00'' = ''0'' @ [CHR ''0'']"
      by simp
    ultimately have "decimal (n div 10) @ [digitChar (nat (n mod 10))] = ''0'' @ [CHR ''0'']"
      using d by (simp only:)
    then have "decimal (n div 10) = ''0''"
      by (simp only: append1_eq_conv)
    moreover from False have "1 \<le> n div 10"
      by linarith
    ultimately show False
      using decimal_zero_iff [of "n div 10"] by simp
  qed
  with p False show ?thesis by simp
qed

lemma formatDuration_zero_iff:
  assumes "0 \<le> n"
  shows "formatDuration n = ''00:00:00'' \<longleftrightarrow> n = 0"
proof
  assume "n = 0"
  then show "formatDuration n = ''00:00:00''"
    by (simp add: formatDuration_def jsRem_def jsToString_def padStart_def decimal_digit
        digitChar_def)
next
  assume eq: "formatDuration n = ''00:00:00''"
  define h where "h = n div 3600"
  define m where "m = n mod 3600 div 60"
  define s where "s = n mod 60"
  define A where "A = padStart 2 (decimal h)"
  define B where "B = padStart 2 (decimal m)"
  define C where "C = padStart 2 (decimal s)"
  from assms have h0: "0 \<le> h" and m0: "0 \<le> m" "m < 100" and s0: "0 \<le> s" "s < 100"
    unfolding h_def m_def s_def by (simp_all add: pos_imp_zdiv_nonneg_iff) 
  from assms have r: "jsRem n 3600 = n mod 3600" "jsRem n 60 = n mod 60"
    by (simp_all add: jsRem_nonneg)
  from h0 m0 s0 have f: "formatDuration n = A @ '':'' @ B @ '':'' @ C"
    unfolding A_def B_def C_def h_def m_def s_def formatDuration_def Let_def r
    by (simp add: jsToString_nonneg)
  have lB: "length B = 2" and lC: "length C = 2"
    unfolding B_def C_def using m0 s0 by (simp_all add: length_padStart_two)
  from eq f have e: "A @ ('':'' @ B @ '':'' @ C) = ''00'' @ '':00:00''"
    by simp
  then have "length (A @ ('':'' @ B @ '':'' @ C)) = length (''00'' @ '':00:00'')"
    by (rule arg_cong)
  with lB lC have lA: "length A = length ''00''"
    by simp
  from lA have "(A @ ('':'' @ B @ '':'' @ C) = ''00'' @ '':00:00'')
      = (A = ''00'' \<and> '':'' @ B @ '':'' @ C = '':00:00'')"
    by (rule append_eq_append_conv [OF disjI1])
  with e have a: "A = ''00''" and r1: "'':'' @ B @ '':'' @ C = '':00:00''"
    by blast+
  from r1 have r1': "B @ ('':'' @ C) = ''00'' @ '':00''"
    by simp
  from lB have "length B = length ''00''"
    by simp
  then have "(B @ ('':'' @ C) = ''00'' @ '':00'') = (B = ''00'' \<and> '':'' @ C = '':00'')"
    by (rule append_eq_append_conv [OF disjI1])
  with r1' have b: "B = ''00''" and r2: "'':'' @ C = '':00''"
    by blast+
  from r2 have c: "C = ''00''"
    by simp
  from a b c h0 m0 s0 have "h = 0" "m = 0" "s = 0"
    unfolding A_def B_def C_def by (simp_all add: padStart_decimal_zero_iff)
  then have z: "n div 3600 = 0" "n mod 3600 div 60 = 0" "n mod 60 = 0"
    unfolding h_def m_def s_def by simp_all
  from assms z(1) have "n < 3600"
    by linarith
  with assms have "n mod 3600 = n"
    by simp
  with z(2) have "n div 60 = 0"
    by simp
  with assms have "n < 60"
    by linarith
  with assms z(3) show "n = 0"
    by simp
qed

lemma group_span_nonneg:
  assumes "g \<noteq> []"
  shows "fi_timestamp (hd (sortByTimestamp g)) \<le> fi_timestamp (last (sortByTimestamp g))"
proof -
  let ?s = "sortByTimestamp g"
  from assms have ne: "?s \<noteq> []"
    by (simp add: sortByTimestamp_Nil_iff)
  have "sorted (map fi_timestamp ?s)"
    by (simp add: sortByTimestamp_def)
  moreover from ne have "map fi_timestamp ?s \<noteq> []"
    by simp
  ultimately have "map fi_timestamp ?s ! 0 \<le> map fi_timestamp ?s ! (length ?s - 1)"
    by (intro sorted_nth_mono) simp_all
  with ne show ?thesis
    by (simp add: hd_conv_nth last_conv_nth)
qed

lemma zero_duration_iff:
  assumes "g \<noteq> []"
  shows "formatDuration ((fi_timestamp (last (sortByTimestamp g))
            - fi_timestamp (hd (sortByTimestamp g))) div 1000) = ''00:00:00''
     \<longleftrightarrow> fi_timestamp (last (sortByTimestamp g)) - fi_timestamp (hd (sortByTimestamp g)) < 1000"
proof -
  define span where
    "span = fi_timestamp (last (sortByTimestamp g)) - fi_timestamp (hd (sortByTimestamp g))"
  from group_span_nonneg [OF assms] have s: "0 \<le> span"
    unfolding span_def by simp
  then have "0 \<le> span div 1000"
    by simp
  then have "formatDuration (span div 1000) = ''00:00:00'' \<longleftrightarrow> span div 1000 = 0"
    by (rule formatDuration_zero_iff)
  also from s have "span div 1000 = 0 \<longleftrightarrow> span < 1000"
    by linarith
  finally show ?thesis
    unfolding span_def .
qed


text \<open>
  When the resolver emits: an empty group throws, and a group that is not empty is resolved
  exactly when its span is a second or more and its final score is not 0 to 0.
\<close>

lemma resolveGroup_Nil: "resolveGroup [] = Inl TypeError"
  by (simp add: resolveGroup_def sortByTimestamp_def)

lemma resolveGroup_emits:
  assumes "g \<noteq> []"
    and "1000 \<le> fi_timestamp (last (sortByTimestamp g)) - fi_timestamp (hd (sortByTimestamp g))"
    and "getFinalScore (fi_data (last (sortByTimestamp g))) \<noteq> \<lparr>sc_team1 = 0, sc_team2 = 0\<rparr>"
  shows "\<exists>r. resolveGroup g = Inr (Some r)"
proof -
  let ?s = "sortByTimestamp g"
  from assms(1) have ne: "?s \<noteq> []" by (simp add: sortByTimestamp_Nil_iff)
  then have idx: "?s ! 0 = hd ?s" "?s ! (length ?s - 1) = last ?s"
    by (simp_all add: hd_conv_nth last_conv_nth)
  from assms(2) zero_duration_iff [OF assms(1)]
  have nz: "formatDuration ((fi_timestamp (last ?s) - fi_timestamp (hd ?s)) div 1000) \<noteq> ''00:00:00''"
    by simp
  from assms(3)
  have ns: "\<not> (sc_team1 (getFinalScore (fi_data (last ?s))) = 0
      \<and> sc_team2 (getFinalScore (fi_data (last ?s))) = 0)"
    by (cases "getFinalScore (fi_data (last ?s))") simp
  from ne nz ns show ?thesis
    unfolding resolveGroup_def Let_def idx by simp
qed

lemma resolveGroup_emits_iff:
  "(\<exists>r. resolveGroup g = Inr (Some r))
     \<longleftrightarrow> g \<noteq> []
       \<and> 1000 \<le> fi_timestamp (last (sortByTimestamp g)) - fi_timestamp (hd (sortByTimestamp g))
       \<and> getFinalScore (fi_data (last (sortByTimestamp g))) \<noteq> \<lparr>sc_team1 = 0, sc_team2 = 0\<rparr>"
proof
  assume "\<exists>r. resolveGroup g = Inr (Some r)"
  then obtain r where r: "resolveGroup g = Inr (Some r)" ..
  note f = resolveGroup_Some [OF r]
  from f(2,3) zero_duration_iff [OF f(1)]
  have "1000 \<le> fi_timestamp (last (sortByTimestamp g)) - fi_timestamp (hd (sortByTimestamp g))"
    by simp
  moreover from f(4,5)
  have "getFinalScore (fi_data (last (sortByTimestamp g))) \<noteq> \<lparr>sc_team1 = 0, sc_team2 = 0\<rparr>"
    by auto
  ultimately show "g \<noteq> []
       \<and> 1000 \<le> fi_timestamp (last (sortByTimestamp g)) - fi_timestamp (hd (sortByTimestamp g))
       \<and> getFinalScore (fi_data (last (sortByTimestamp g))) \<noteq> \<lparr>sc_team1 = 0, sc_team2 = 0\<rparr>"
    using f(1) by blast
next
  assume "g \<noteq> []
       \<and> 1000 \<le> fi_timestamp (last (sortByTimestamp g)) - fi_timestamp (hd (sortByTimestamp g))
       \<and> getFinalScore (fi_data (last (sortByTimestamp g))) \<noteq> \<lparr>sc_team1 = 0, sc_team2 = 0\<rparr>"
  then show "\<exists>r. resolveGroup g = Inr (Some r)"
    using resolveGroup_emits by blast
qed

section \<open>Reconciliation by the natural key\<close>

lemma mergeGame_cases:
  "mergeGame history newGame =
     (if \<exists>g \<in> set history. startTime g = startTime newGame \<and> gr_map g = gr_map newGame
      then history else history @ [newGame])"
proof (cases "find (\<lambda>g. startTime g = startTime newGame \<and> gr_map g = gr_map newGame) history")
  case None
  then have "\<not> (\<exists>g \<in> set history. startTime g = startTime newGame \<and> gr_map g = gr_map newGame)"
    by (simp add: find_None_iff)
  with None show ?thesis
    by (simp add: mergeGame_def)
next
  case (Some found)
  then have "\<exists>g \<in> set history. startTime g = startTime newGame \<and> gr_map g = gr_map newGame"
    by (metis (mono_tags, lifting) find_None_iff option.distinct(1))
  with Some show ?thesis
    by (simp add: mergeGame_def)
qed

text \<open>
  The body of the merge loop on its own: merging a result whose key \<open>(startTime, map)\<close> is
  already in the list leaves the list as it is; the result is appended exactly when no
  entry of the list has its key; merging the same result a second time changes nothing.
\<close>

lemma mergeGame_natural_key:
  "((\<exists>g \<in> set history. startTime g = startTime newGame \<and> gr_map g = gr_map newGame)
      \<longrightarrow> mergeGame history newGame = history)
   \<and> (mergeGame history newGame = history @ [newGame]
        \<longleftrightarrow> \<not> (\<exists>g \<in> set history. startTime g = startTime newGame \<and> gr_map g = gr_map newGame))
   \<and> mergeGame (mergeGame history newGame) newGame = mergeGame history newGame"
  by (simp add: mergeGame_cases)

section \<open>The history across a cycle\<close>

lemma score_eq_iff: "(s :: score) = \<lparr>sc_team1 = a, sc_team2 = b\<rparr> \<longleftrightarrow> sc_team1 s = a \<and> sc_team2 s = b"
  by (cases s) simp

lemma resolveAll_member:
  "resolveAll gs = Inr results \<Longrightarrow> r \<in> set results \<Longrightarrow> \<exists>g \<in> set gs. resolveGroup g = Inr (Some r)"
proof (induction gs arbitrary: results)
  case Nil
  then show ?case by simp
next
  case (Cons g gs)
  from Cons.prems(1) obtain x rs where x: "resolveGroup g = Inr x" and rs: "resolveAll gs = Inr rs"
    and res: "results = (case x of None \<Rightarrow> [] | Some y \<Rightarrow> [y]) @ rs"
    by (auto split: sum.splits)
  from Cons.prems(2) res consider "x = Some r" | "r \<in> set rs"
    by (auto split: option.splits)
  then show ?case
  proof cases
    case 1
    with x show ?thesis by simp
  next
    case 2
    from Cons.IH [OF rs 2] show ?thesis by auto
  qed
qed

lemma aggregateGameResults_member:
  assumes "r \<in> set (fst (aggregateGameResults rt st))"
  shows "\<exists>g. resolveGroup g = Inr (Some r)"
proof (cases rt)
  case (Snapshots fileInfos)
  show ?thesis
  proof (cases "resolveAll (groupFilesIntoGames fileInfos)")
    case (Inl e)
    with Snapshots assms show ?thesis by (simp add: aggregateGameResults_def)
  next
    case (Inr results)
    with Snapshots assms have "r \<in> set results" by (simp add: aggregateGameResults_def)
    from resolveAll_member [OF Inr this] show ?thesis by auto
  qed
qed (use assms in \<open>simp_all add: aggregateGameResults_def\<close>)

lemma set_mergeGame: "set (mergeGame h n) \<subseteq> set h \<union> {n}"
  by (auto simp: mergeGame_cases)

lemma mergeGame_keeps: "set h \<subseteq> set (mergeGame h n)"
  by (auto simp: mergeGame_cases)

lemma set_foldl_mergeGame: "set (foldl mergeGame h ns) \<subseteq> set h \<union> set ns"
proof (induction ns arbitrary: h)
  case Nil
  then show ?case by simp
next
  case (Cons n ns)
  from Cons.IH [of "mergeGame h n"] set_mergeGame [of h n] show ?case by auto
qed

lemma foldl_mergeGame_keeps: "set h \<subseteq> set (foldl mergeGame h ns)"
proof (induction ns arbitrary: h)
  case Nil
  then show ?case by simp
next
  case (Cons n ns)
  from Cons.IH [of "mergeGame h n"] mergeGame_keeps [of h n] show ?case by auto
qed

lemma foldl_mergeGame_known: "set ns \<subseteq> set h \<Longrightarrow> foldl mergeGame h ns = h"
proof (induction ns)
  case Nil
  then show ?case by simp
next
  case (Cons n ns)
  then have "mergeGame h n = h" by (auto simp: mergeGame_cases)
  with Cons show ?case by simp
qed

lemma loadPersistedGames_aggregateLeaderboard:
  "loadPersistedGames (snd (aggregateLeaderboardFromGames gs st)) = loadPersistedGames st"
  by (simp add: aggregateLeaderboardFromGames_def loadPersistedGames_def Let_def
      split: sum.splits prod.splits)

lemma loadPersistedGames_updateAllResults:
  "loadPersistedGames (updateAllResults rt st) =
     foldl mergeGame (loadPersistedGames (snd (aggregateGameResults rt st)))
       (fst (aggregateGameResults rt st))"
  by (simp add: updateAllResults_def Let_def loadPersistedGames_def saveGameResults_def
      aggregateLeaderboardFromGames_def split: prod.splits sum.splits)

text \<open>The history after a cycle that read snapshots is that cycle's results, whatever was persisted.\<close>

lemma updateAllResults_overwrites:
  "\<exists>results. resolveAll (groupFilesIntoGames fileInfos) = Inr results
     \<and> loadPersistedGames (updateAllResults (Snapshots fileInfos) st) = results"
proof -
  from resolveAll_defined [OF groups_nonempty] obtain results
    where r: "resolveAll (groupFilesIntoGames fileInfos) = Inr results" by blast
  then have "loadPersistedGames (updateAllResults (Snapshots fileInfos) st)
      = foldl mergeGame results results"
    unfolding loadPersistedGames_updateAllResults
    by (simp add: aggregateGameResults_def saveGameResults_def loadPersistedGames_def)
  with r show ?thesis by (simp add: foldl_mergeGame_known)
qed

lemma updateAllResults_keeps_without_snapshots:
  "rt = RetrievalError \<or> rt = NoBackupFiles \<Longrightarrow>
     loadPersistedGames (updateAllResults rt st) = loadPersistedGames st"
  unfolding loadPersistedGames_updateAllResults
  by (auto simp: aggregateGameResults_def)

lemma history_after_cycle:
  "set (loadPersistedGames (updateAllResults rt st))
     \<subseteq> set (loadPersistedGames st) \<union> set (fst (aggregateGameResults rt st))"
proof -
  have "set (loadPersistedGames (snd (aggregateGameResults rt st)))
      \<subseteq> set (loadPersistedGames st) \<union> set (fst (aggregateGameResults rt st))"
    by (auto simp: aggregateGameResults_def saveGameResults_def loadPersistedGames_def
        split: retrieval.splits sum.splits)
  with set_foldl_mergeGame [of "loadPersistedGames (snd (aggregateGameResults rt st))"
      "fst (aggregateGameResults rt st)"]
  show ?thesis unfolding loadPersistedGames_updateAllResults by blast
qed

text \<open>
  Claim C5. The resolver emits no result whose duration is \<^verbatim>\<open>00:00:00\<close> and none whose final
  score is 0 to 0: a group with such a duration or score gives no result (the duration is
  such when first and last snapshot are less than a second apart), so no result of
  \<^verbatim>\<open>aggregateGameResults\<close> is of that kind, and a history free of them stays free of them
  across \<^verbatim>\<open>updateAllResults\<close>.
\<close>

theorem no_degenerate_result:
  "(resolveGroup g = Inr (Some r)
      \<longrightarrow> duration r \<noteq> ''00:00:00'' \<and> finalScore r \<noteq> \<lparr>sc_team1 = 0, sc_team2 = 0\<rparr>)
   \<and> (g \<noteq> [] \<and> (formatDuration ((fi_timestamp (last (sortByTimestamp g))
                      - fi_timestamp (hd (sortByTimestamp g))) div 1000) = ''00:00:00''
                \<or> getFinalScore (fi_data (last (sortByTimestamp g))) = \<lparr>sc_team1 = 0, sc_team2 = 0\<rparr>)
      \<longrightarrow> resolveGroup g = Inr None)
   \<and> (g \<noteq> [] \<and> fi_timestamp (last (sortByTimestamp g))
                  - fi_timestamp (hd (sortByTimestamp g)) < 1000
      \<longrightarrow> resolveGroup g = Inr None)
   \<and> (\<forall>x \<in> set (fst (aggregateGameResults rt st)).
         duration x \<noteq> ''00:00:00'' \<and> finalScore x \<noteq> \<lparr>sc_team1 = 0, sc_team2 = 0\<rparr>)
   \<and> ((\<forall>x \<in> set (loadPersistedGames st).
          duration x \<noteq> ''00:00:00'' \<and> finalScore x \<noteq> \<lparr>sc_team1 = 0, sc_team2 = 0\<rparr>)
      \<longrightarrow> (\<forall>x \<in> set (loadPersistedGames (updateAllResults rt st)).
            duration x \<noteq> ''00:00:00'' \<and> finalScore x \<noteq> \<lparr>sc_team1 = 0, sc_team2 = 0\<rparr>))"
proof -
  have emitted: "duration x \<noteq> ''00:00:00'' \<and> finalScore x \<noteq> \<lparr>sc_team1 = 0, sc_team2 = 0\<rparr>"
    if "resolveGroup h = Inr (Some x)" for h x
    using resolveGroup_Some(3,5) [OF that] by (simp add: score_eq_iff)
  have a: "resolveGroup g = Inr (Some r)
      \<longrightarrow> duration r \<noteq> ''00:00:00'' \<and> finalScore r \<noteq> \<lparr>sc_team1 = 0, sc_team2 = 0\<rparr>"
    using emitted by blast
  have b: "g \<noteq> [] \<and> (formatDuration ((fi_timestamp (last (sortByTimestamp g))
                      - fi_timestamp (hd (sortByTimestamp g))) div 1000) = ''00:00:00''
                \<or> getFinalScore (fi_data (last (sortByTimestamp g))) = \<lparr>sc_team1 = 0, sc_team2 = 0\<rparr>)
      \<longrightarrow> resolveGroup g = Inr None"
    using resolveGroup_discard [of g] by blast
  have b': "g \<noteq> [] \<and> fi_timestamp (last (sortByTimestamp g))
                  - fi_timestamp (hd (sortByTimestamp g)) < 1000
      \<longrightarrow> resolveGroup g = Inr None"
    using resolveGroup_discard [of g] zero_duration_iff [of g] by blast
  have c: "\<forall>x \<in> set (fst (aggregateGameResults rt st)).
         duration x \<noteq> ''00:00:00'' \<and> finalScore x \<noteq> \<lparr>sc_team1 = 0, sc_team2 = 0\<rparr>"
    using aggregateGameResults_member emitted by blast
  have d: "(\<forall>x \<in> set (loadPersistedGames st).
          duration x \<noteq> ''00:00:00'' \<and> finalScore x \<noteq> \<lparr>sc_team1 = 0, sc_team2 = 0\<rparr>)
      \<longrightarrow> (\<forall>x \<in> set (loadPersistedGames (updateAllResults rt st)).
            duration x \<noteq> ''00:00:00'' \<and> finalScore x \<noteq> \<lparr>sc_team1 = 0, sc_team2 = 0\<rparr>)"
    using history_after_cycle [of rt st] c by blast
  from a b b' c d show ?thesis by blast
qed

theorem no_degenerate_result_witness:
  "resolveGroup [round1, round2, round3] = Inr (Some firstMatch)
   \<and> duration firstMatch \<noteq> ''00:00:00''
   \<and> finalScore firstMatch \<noteq> \<lparr>sc_team1 = 0, sc_team2 = 0\<rparr>
   \<and> resolveGroup [round1] = Inr None
   \<and> resolveGroup [round1, nextRound1] = Inr None
   \<and> fst (aggregateGameResults (Snapshots [round1, round2, round3, nextRound1]) initialState) = [firstMatch]"
proof -
  have r: "resolveGroup [round1, round2, round3] = Inr (Some firstMatch)"
    by code_simp
  have z: "[round1] \<noteq> [] \<and> fi_timestamp (last (sortByTimestamp [round1]))
      - fi_timestamp (hd (sortByTimestamp [round1])) < 1000"
    by (simp add: sortByTimestamp_def)
  have s: "[round1, nextRound1] \<noteq> [] \<and>
      (formatDuration ((fi_timestamp (last (sortByTimestamp [round1, nextRound1]))
          - fi_timestamp (hd (sortByTimestamp [round1, nextRound1]))) div 1000) = ''00:00:00''
       \<or> getFinalScore (fi_data (last (sortByTimestamp [round1, nextRound1])))
           = \<lparr>sc_team1 = 0, sc_team2 = 0\<rparr>)"
    by (simp add: sortByTimestamp_def example_defs getFinalScore_def addHalf_def orZero_def)
  have f: "fst (aggregateGameResults (Snapshots [round1, round2, round3, nextRound1]) initialState)
      = [firstMatch]"
    by code_simp
  from no_degenerate_result [of "[round1, round2, round3]" firstMatch] r
  have a: "duration firstMatch \<noteq> ''00:00:00''
      \<and> finalScore firstMatch \<noteq> \<lparr>sc_team1 = 0, sc_team2 = 0\<rparr>"
    by blast
  from no_degenerate_result [of "[round1]"] z
  have b: "resolveGroup [round1] = Inr None"
    by blast
  from no_degenerate_result [of "[round1, nextRound1]"] s
  have c: "resolveGroup [round1, nextRound1] = Inr None"
    by blast
  from r a b c f show ?thesis by blast
qed

text \<open>
  Claim C9. A group is resolved into a result exactly when it is not empty, its last
  snapshot is a second or more after its first, and its final score is not 0 to 0. The
  final score and the rosters of the result are those of the last snapshot of the group.
  When the final score is tied, \<^verbatim>\<open>winner\<close> and \<^verbatim>\<open>loser\<close> are both the empty list (a list, never
  \<^verbatim>\<open>null\<close>); when the scores differ, they are the names of the roster with the higher score
  and of the other roster.
\<close>

theorem winner_loser_by_score:
  "((\<exists>x. resolveGroup g = Inr (Some x))
      \<longleftrightarrow> g \<noteq> []
        \<and> 1000 \<le> fi_timestamp (last (sortByTimestamp g)) - fi_timestamp (hd (sortByTimestamp g))
        \<and> getFinalScore (fi_data (last (sortByTimestamp g))) \<noteq> \<lparr>sc_team1 = 0, sc_team2 = 0\<rparr>)
   \<and> (resolveGroup g = Inr (Some r)
      \<longrightarrow> finalScore r = getFinalScore (fi_data (last (sortByTimestamp g)))
        \<and> players r = \<lparr>ro_team1 = extractPlayers (PlayersOnTeam1 (fi_data (last (sortByTimestamp g)))),
                       ro_team2 = extractPlayers (PlayersOnTeam2 (fi_data (last (sortByTimestamp g))))\<rparr>
        \<and> (sc_team1 (finalScore r) = sc_team2 (finalScore r) \<longrightarrow> winner r = [] \<and> loser r = [])
        \<and> (sc_team1 (finalScore r) > sc_team2 (finalScore r)
             \<longrightarrow> winner r = map ps_name (ro_team1 (players r))
               \<and> loser r = map ps_name (ro_team2 (players r)))
        \<and> (sc_team1 (finalScore r) < sc_team2 (finalScore r)
             \<longrightarrow> winner r = map ps_name (ro_team2 (players r))
               \<and> loser r = map ps_name (ro_team1 (players r))))"
proof -
  have "finalScore r = getFinalScore (fi_data (last (sortByTimestamp g)))
        \<and> players r = \<lparr>ro_team1 = extractPlayers (PlayersOnTeam1 (fi_data (last (sortByTimestamp g)))),
                       ro_team2 = extractPlayers (PlayersOnTeam2 (fi_data (last (sortByTimestamp g))))\<rparr>
        \<and> (sc_team1 (finalScore r) = sc_team2 (finalScore r) \<longrightarrow> winner r = [] \<and> loser r = [])
        \<and> (sc_team1 (finalScore r) > sc_team2 (finalScore r)
             \<longrightarrow> winner r = map ps_name (ro_team1 (players r))
               \<and> loser r = map ps_name (ro_team2 (players r)))
        \<and> (sc_team1 (finalScore r) < sc_team2 (finalScore r)
             \<longrightarrow> winner r = map ps_name (ro_team2 (players r))
               \<and> loser r = map ps_name (ro_team1 (players r)))"
    if "resolveGroup g = Inr (Some r)"
    using resolveGroup_Some(4,6,7,8) [OF that] by simp
  with resolveGroup_emits_iff [of g] show ?thesis
    by blast
qed

theorem winner_loser_by_score_witness:
  "(\<exists>x. resolveGroup [round1, tiedRound] = Inr (Some x) \<and> winner x = [] \<and> loser x = [])
   \<and> resolveGroup [round1, tiedRound] = Inr (Some tiedMatch)
   \<and> winner tiedMatch = [] \<and> loser tiedMatch = []
   \<and> (\<exists>x. resolveGroup [round1, round2, round3] = Inr (Some x)
          \<and> winner x = [''Alice''] \<and> loser x = [''Bob''])
   \<and> resolveGroup [round1, round2, round3] = Inr (Some firstMatch)
   \<and> winner firstMatch = [''Alice''] \<and> loser firstMatch = [''Bob'']"
proof -
  have tg: "[round1, tiedRound] \<noteq> []
      \<and> 1000 \<le> fi_timestamp (last (sortByTimestamp [round1, tiedRound]))
                 - fi_timestamp (hd (sortByTimestamp [round1, tiedRound]))
      \<and> getFinalScore (fi_data (last (sortByTimestamp [round1, tiedRound])))
          \<noteq> \<lparr>sc_team1 = 0, sc_team2 = 0\<rparr>"
    by (simp add: sortByTimestamp_def example_defs getFinalScore_def addHalf_def orZero_def)
  have fg: "[round1, round2, round3] \<noteq> []
      \<and> 1000 \<le> fi_timestamp (last (sortByTimestamp [round1, round2, round3]))
                 - fi_timestamp (hd (sortByTimestamp [round1, round2, round3]))
      \<and> getFinalScore (fi_data (last (sortByTimestamp [round1, round2, round3])))
          \<noteq> \<lparr>sc_team1 = 0, sc_team2 = 0\<rparr>"
    by (simp add: sortByTimestamp_def example_defs getFinalScore_def addHalf_def orZero_def)
  have t: "resolveGroup [round1, tiedRound] = Inr (Some tiedMatch)"
    by code_simp
  have f: "resolveGroup [round1, round2, round3] = Inr (Some firstMatch)"
    by code_simp
  have ts: "sc_team1 (finalScore tiedMatch) = sc_team2 (finalScore tiedMatch)"
    by (simp add: tiedMatch_def)
  have fs: "sc_team1 (finalScore firstMatch) > sc_team2 (finalScore firstMatch)"
    by (simp add: firstMatch_def)
  from winner_loser_by_score [of "[round1, tiedRound]" tiedMatch] tg
  obtain x where x: "resolveGroup [round1, tiedRound] = Inr (Some x)"
    by blast
  from winner_loser_by_score [of "[round1, round2, round3]" firstMatch] fg
  obtain y where y: "resolveGroup [round1, round2, round3] = Inr (Some y)"
    by blast
  from winner_loser_by_score [of "[round1, tiedRound]" tiedMatch] t ts
  have a: "winner tiedMatch = [] \<and> loser tiedMatch = []"
    by blast
  from winner_loser_by_score [of "[round1, round2, round3]" firstMatch] f fs
  have "winner firstMatch = map ps_name (ro_team1 (players firstMatch))
      \<and> loser firstMatch = map ps_name (ro_team2 (players firstMatch))"
    by blast
  then have b: "winner firstMatch = [''Alice''] \<and> loser firstMatch = [''Bob'']"
    by (simp add: firstMatch_def)
  from x t have xt: "x = tiedMatch" by simp
  from y f have yf: "y = firstMatch" by simp
  from x xt a have c: "\<exists>x. resolveGroup [round1, tiedRound] = Inr (Some x)
      \<and> winner x = [] \<and> loser x = []"
    by blast
  from y yf b have d: "\<exists>x. resolveGroup [round1, round2, round3] = Inr (Some x)
      \<and> winner x = [''Alice''] \<and> loser x = [''Bob'']"
    by blast
  from c t a d f b show ?thesis by blast
qed

section \<open>The current session\<close>

lemma currentGameOfGroups_cases:
  assumes "gameGroups \<noteq> []" and "last gameGroups \<noteq> []"
  shows "currentGameOfGroups now gameGroups =
     (if now - fi_timestamp (last (last gameGroups)) > 90 * 1000 then None
      else Some
        \<lparr>cg_startTime = toISOString (fi_timestamp (hd (sortByTimestamp (last gameGroups)))),
         currentSnapshotTime = toISOString (fi_timestamp (last (sortByTimestamp (last gameGroups)))),
         cg_duration = formatDuration ((fi_timestamp (last (sortByTimestamp (last gameGroups)))
             - fi_timestamp (hd (sortByTimestamp (last gameGroups)))) div 1000),
         cg_map = mapOrUnknown (sf_map (fi_data (last (sortByTimestamp (last gameGroups))))),
         currentScore = getFinalScore (fi_data (last (sortByTimestamp (last gameGroups)))),
         currentRound = Max (set (map fi_round (sortByTimestamp (last gameGroups)))),
         cg_players =
           \<lparr>cr_team1 = map ps_name (extractPlayers
              (PlayersOnTeam1 (fi_data (last (sortByTimestamp (last gameGroups)))))),
            cr_team2 = map ps_name (extractPlayers
              (PlayersOnTeam2 (fi_data (last (sortByTimestamp (last gameGroups))))))\<rparr>\<rparr>)"
proof -
  let ?g = "last gameGroups"
  let ?s = "sortByTimestamp ?g"
  from assms(1) have g: "gameGroups ! (length gameGroups - 1) = ?g"
    by (simp add: last_conv_nth)
  from assms(2) have l: "?g ! (length ?g - 1) = last ?g"
    by (simp add: last_conv_nth)
  from assms(2) have "?s \<noteq> []"
    by (simp add: sortByTimestamp_Nil_iff)
  then have idx: "?s ! 0 = hd ?s" "?s ! (length ?s - 1) = last ?s"
    by (simp_all add: hd_conv_nth last_conv_nth)
  show ?thesis
    using assms unfolding currentGameOfGroups_def Let_def g l idx by simp
qed

lemma last_concat_groups:
  assumes "gs \<noteq> []" and "last gs \<noteq> []"
  shows "last (concat gs) = last (last gs)"
proof -
  from assms(1) have "gs = butlast gs @ [last gs]" by simp
  then have "concat gs = concat (butlast gs) @ last gs"
    by (metis concat.simps(1,2) concat_append append_Nil2)
  with assms(2) show ?thesis by simp
qed

text \<open>From the snapshots of a cycle: the latest record of all decides.\<close>

lemma aggregateCurrentGame_recency:
  assumes "fileInfos \<noteq> []"
  shows "aggregateCurrentGame now (Snapshots fileInfos) = None
     \<longleftrightarrow> now - fi_timestamp (last (sortByTimestamp fileInfos)) > 90 * 1000"
proof -
  let ?gs = "groupFilesIntoGames fileInfos"
  from assms have "concat ?gs \<noteq> []"
    by (simp add: concat_groupFilesIntoGames sortByTimestamp_Nil_iff)
  then have ne: "?gs \<noteq> []" by auto
  then have l: "last ?gs \<noteq> []" by (rule last_groupFilesIntoGames)
  from last_concat_groups [OF ne l]
  have t: "last (last ?gs) = last (sortByTimestamp fileInfos)"
    by (simp add: concat_groupFilesIntoGames)
  show ?thesis
    unfolding aggregateCurrentGame_def retrieval.case currentGameOfGroups_cases [OF ne l] t
    by simp
qed

text \<open>
  Claim C6. For a non-empty last group, the current-session detector answers \<^verbatim>\<open>null\<close> exactly
  when \<open>now\<close> is more than 90 seconds after the timestamp of the group's last record: at 91
  seconds it is absent, at 89 seconds present. A present session carries the duration and
  the score of the group as they are; no duration and no score makes the detector drop it.
\<close>

theorem current_session_recency:
  assumes "gameGroups \<noteq> []" and "last gameGroups \<noteq> []"
  shows "(currentGameOfGroups now gameGroups = None
           \<longleftrightarrow> now - fi_timestamp (last (last gameGroups)) > 90 * 1000)
    \<and> (now - fi_timestamp (last (last gameGroups)) = 91 * 1000
         \<longrightarrow> currentGameOfGroups now gameGroups = None)
    \<and> (now - fi_timestamp (last (last gameGroups)) = 89 * 1000
         \<longrightarrow> currentGameOfGroups now gameGroups \<noteq> None)
    \<and> (\<forall>cg. currentGameOfGroups now gameGroups = Some cg \<longrightarrow>
           cg_duration cg = formatDuration ((fi_timestamp (last (sortByTimestamp (last gameGroups)))
               - fi_timestamp (hd (sortByTimestamp (last gameGroups)))) div 1000)
         \<and> currentScore cg = getFinalScore (fi_data (last (sortByTimestamp (last gameGroups)))))"
proof (cases "now - fi_timestamp (last (last gameGroups)) > 90 * 1000")
  case True
  with currentGameOfGroups_cases [OF assms, of now] show ?thesis by simp
next
  case False
  with currentGameOfGroups_cases [OF assms, of now] show ?thesis by simp
qed

theorem current_session_recency_witness:
  "currentGameOfGroups (1739512453000 + 91 * 1000) [[round1]] = None
   \<and> currentGameOfGroups (1739512453000 + 89 * 1000) [[round1]] \<noteq> None
   \<and> currentGameOfGroups (1739512453000 + 89 * 1000) [[round1]] = Some justStarted
   \<and> cg_duration justStarted = ''00:00:00''
   \<and> currentScore justStarted = \<lparr>sc_team1 = 0, sc_team2 = 0\<rparr>
   \<and> resolveGroup [round1] = Inr None"
proof -
  have n: "[[round1]] \<noteq> []" and l: "last [[round1]] \<noteq> []"
    by simp_all
  have t: "fi_timestamp (last (last [[round1]])) = 1739512453000"
    by (simp add: example_defs)
  from current_session_recency [OF n l, of "1739512453000 + 91 * 1000"] t
  have a: "currentGameOfGroups (1739512453000 + 91 * 1000) [[round1]] = None"
    by simp
  from current_session_recency [OF n l, of "1739512453000 + 89 * 1000"] t
  have p: "currentGameOfGroups (1739512453000 + 89 * 1000) [[round1]] \<noteq> None"
    by simp
  have b: "currentGameOfGroups (1739512453000 + 89 * 1000) [[round1]] = Some justStarted"
    by code_simp
  have c: "cg_duration justStarted = ''00:00:00''
      \<and> currentScore justStarted = \<lparr>sc_team1 = 0, sc_team2 = 0\<rparr>"
    by (simp add: justStarted_def)
  have d: "resolveGroup [round1] = Inr None"
    by code_simp
  from a p b c d show ?thesis by blast
qed

section \<open>The update cycle and the persisted history\<close>

text \<open>
  Claim C1 asks that a result persisted before a cycle is still persisted after it. The
  cycle first calls \<^verbatim>\<open>aggregateGameResults\<close>, which writes this cycle's results over
  \<^verbatim>\<open>games.json\<close>, and only then loads the file to merge into it. With the earlier match
  persisted and the three snapshots of a new match retrieved, the history after the cycle
  is the new match alone.
\<close>

theorem update_cycle_drops_history:
  "loadPersistedGames persistedState = [earlierMatch]
   \<and> loadPersistedGames (updateAllResults (Snapshots [round1, round2, round3]) persistedState)
       = [firstMatch]
   \<and> earlierMatch \<noteq> firstMatch"
  by code_simp


section \<open>Binary64 arithmetic\<close>

text \<open>Rounding to an integer, and the exponent that \<open>binaryExponent\<close> computes.\<close>

lemma roundHalfEven_near: "\<bar>of_int (roundHalfEven y) - y\<bar> \<le> 1 / 2"
proof -
  have "of_int \<lfloor>y\<rfloor> \<le> y" and "y < of_int \<lfloor>y\<rfloor> + 1"
    by linarith+
  then show ?thesis
    by (auto simp: roundHalfEven_def Let_def)
qed

lemma bitLength_nonneg: "0 \<le> bitLength n"
proof (induction n rule: bitLength.induct)
  case (1 n)
  show ?case
  proof (cases "n \<le> 0")
    case True
    then show ?thesis by (simp add: bitLength.simps [of n])
  next
    case False
    with "1.IH" have "0 \<le> bitLength (n div 2)" by simp
    with False show ?thesis by (simp add: bitLength.simps [of n])
  qed
qed

lemma bitLength_bounds:
  "0 < n \<Longrightarrow> (2::rat) powi (bitLength n - 1) \<le> of_int n \<and> of_int n < (2::rat) powi (bitLength n)"
proof (induction n rule: bitLength.induct)
  case (1 n)
  from "1.prems" have b: "bitLength n = 1 + bitLength (n div 2)"
    by (simp add: bitLength.simps [of n])
  show ?case
  proof (cases "n = 1")
    case True
    have "bitLength 0 = 0" by (simp add: bitLength.simps [of 0])
    with True b show ?thesis by simp
  next
    case False
    with "1.prems" have h: "0 < n div 2" by simp
    define L where "L = bitLength (n div 2)"
    define m :: rat where "m = of_int (n div 2)"
    from "1.prems" h "1.IH"
    have lo: "(2::rat) powi (L - 1) \<le> m" and hi: "m < (2::rat) powi L"
      unfolding L_def m_def by simp_all
    have "2 * (n div 2) \<le> n" and "n \<le> 2 * (n div 2) + 1"
      by simp_all
    then have "(of_int (2 * (n div 2)) :: rat) \<le> of_int n"
      and "(of_int n :: rat) \<le> of_int (2 * (n div 2) + 1)"
      by (simp_all only: of_int_le_iff)
    then have d1: "2 * m \<le> of_int n" and d2: "of_int n \<le> 2 * m + 1"
      unfolding m_def by simp_all
    have "0 \<le> L"
      unfolding L_def by (rule bitLength_nonneg)
    then obtain j where j: "L = int j"
      using nonneg_int_cases by blast
    from hi have "(of_int (n div 2) :: rat) < of_int (2 ^ j)"
      unfolding j m_def by simp
    then have "n div 2 < 2 ^ j"
      by (simp only: of_int_less_iff)
    then have "n div 2 + 1 \<le> 2 ^ j"
      by simp
    then have "(of_int (n div 2 + 1) :: rat) \<le> of_int (2 ^ j)"
      by (simp only: of_int_le_iff)
    then have hi': "m + 1 \<le> 2 powi L"
      unfolding j m_def by simp
    have p1: "(2::rat) powi (1 + L) = 2 * 2 powi L"
      by (simp add: power_int_add)
    have p0: "(2::rat) powi (1 + L - 1) = 2 * 2 powi (L - 1)"
      by (simp add: power_int_diff)
    from lo d1 have "(2::rat) powi (bitLength n - 1) \<le> of_int n"
      unfolding b L_def [symmetric] p0 by linarith
    moreover from hi' d2 have "of_int n < (2::rat) powi (bitLength n)"
      unfolding b L_def [symmetric] p1 by linarith
    ultimately show ?thesis ..
  qed
qed

lemma binaryExponent_le:
  assumes "x \<noteq> 0"
  shows "2 powi (binaryExponent x) \<le> \<bar>x\<bar>"
proof -
  obtain a b where q: "quotient_of \<bar>x\<bar> = (a, b)"
    by (cases "quotient_of \<bar>x\<bar>")
  then have b: "0 < b" and x: "\<bar>x\<bar> = of_int a / of_int b"
    by (simp_all add: quotient_of_denom_pos quotient_of_div)
  from assms have "0 < \<bar>x\<bar>" by simp
  with x b have a: "0 < a"
    by (simp add: zero_less_divide_iff)
  show ?thesis
  proof (cases "2 powi (bitLength a - bitLength b) \<le> \<bar>x\<bar>")
    case True
    then show ?thesis
      by (simp add: binaryExponent_def q)
  next
    case False
    then have e: "binaryExponent x = bitLength a - bitLength b - 1"
      by (simp add: binaryExponent_def q)
    from bitLength_bounds [OF a] have ra: "(2::rat) powi (bitLength a - 1) \<le> of_int a"
      by simp
    from bitLength_bounds [OF b] have rb: "of_int b < (2::rat) powi (bitLength b)"
      by simp
    have "bitLength a - bitLength b - 1 = (bitLength a - 1) - bitLength b"
      by simp
    then have "(2::rat) powi (bitLength a - bitLength b - 1)
        = 2 powi ((bitLength a - 1) - bitLength b)"
      by (rule arg_cong)
    also have "\<dots> = 2 powi (bitLength a - 1) / 2 powi (bitLength b)"
      by (rule power_int_diff) simp
    also have "\<dots> \<le> of_int a / 2 powi (bitLength b)"
      using ra by (simp add: divide_right_mono)
    also have "\<dots> \<le> of_int a / of_int b"
      using rb a b by (simp add: frac_le)
    finally show ?thesis
      by (simp add: e x)
  qed
qed

lemma binaryExponent_gt:
  assumes "x \<noteq> 0"
  shows "\<bar>x\<bar> < 2 powi (binaryExponent x + 1)"
proof -
  obtain a b where q: "quotient_of \<bar>x\<bar> = (a, b)"
    by (cases "quotient_of \<bar>x\<bar>")
  then have b: "0 < b" and x: "\<bar>x\<bar> = of_int a / of_int b"
    by (simp_all add: quotient_of_denom_pos quotient_of_div)
  from assms have "0 < \<bar>x\<bar>" by simp
  with x b have a: "0 < a"
    by (simp add: zero_less_divide_iff)
  show ?thesis
  proof (cases "2 powi (bitLength a - bitLength b) \<le> \<bar>x\<bar>")
    case False
    then show ?thesis
      by (simp add: binaryExponent_def q)
  next
    case True
    then have e: "binaryExponent x = bitLength a - bitLength b"
      by (simp add: binaryExponent_def q)
    from bitLength_bounds [OF a] have ra: "of_int a < (2::rat) powi (bitLength a)"
      by simp
    from bitLength_bounds [OF b] have rb: "(2::rat) powi (bitLength b - 1) \<le> of_int b"
      by simp
    have "of_int a / of_int b < (2::rat) powi (bitLength a) / of_int b"
      using ra b by (simp add: divide_strict_right_mono)
    also have "\<dots> \<le> 2 powi (bitLength a) / 2 powi (bitLength b - 1)"
      using rb by (simp add: frac_le)
    also have "\<dots> = 2 powi (bitLength a - (bitLength b - 1))"
      by (rule power_int_diff [symmetric]) simp
    also have "bitLength a - (bitLength b - 1) = bitLength a - bitLength b + 1"
      by simp
    finally show ?thesis
      by (simp add: e x)
  qed
qed

text \<open>
  A number whose significand at its exponent is an integer is a binary64 number: rounding
  leaves it as it is. Every integer of magnitude at most \<open>2\<^sup>5\<^sup>3\<close> is one, so sums within that
  range are exact; beyond it the sum of two integers is rounded, to an integer.
\<close>

lemma roundHalfEven_of_int: "roundHalfEven (of_int k) = k"
  by (simp add: roundHalfEven_def)

lemma binary64_exact:
  assumes "\<bar>x\<bar> * 2 powi (52 - binaryExponent x) = of_int k"
  shows "binary64 x = x"
proof (cases "x = 0")
  case True
  then show ?thesis by (simp add: binary64_def)
next
  case False
  define e where "e = binaryExponent x"
  have "binary64 x = sgn x * of_int k * 2 powi (e - 52)"
    using False assms by (simp add: binary64_def Let_def e_def roundHalfEven_of_int)
  also have "\<dots> = sgn x * (\<bar>x\<bar> * 2 powi (52 - e)) * 2 powi (e - 52)"
    using assms by (simp add: e_def)
  also have "\<dots> = sgn x * \<bar>x\<bar> * (2 powi (52 - e) * 2 powi (e - 52))"
    by (simp only: mult.assoc)
  also have "2 powi (52 - e) * 2 powi (e - 52) = (1::rat)"
    by (simp add: power_int_add [symmetric])
  finally show ?thesis
    by (simp add: mult_sgn_abs)
qed


lemma binary64_of_int_integer: "\<exists>k. binary64 (of_int n) = (of_int k :: rat)"
proof (cases "n = 0")
  case True
  then have "binary64 (of_int n) = of_int 0" by (simp add: binary64_def)
  then show ?thesis ..
next
  case False
  define x :: rat where "x = of_int n"
  define e where "e = binaryExponent x"
  from False have x0: "x \<noteq> 0"
    unfolding x_def by simp
  have ax: "\<bar>x\<bar> = of_int \<bar>n\<bar>"
    unfolding x_def by simp
  show ?thesis
  proof (cases "e \<le> 52")
    case True
    then obtain j where j: "52 - e = int j"
      using nonneg_int_cases [of "52 - e"] by auto
    have "\<bar>x\<bar> * 2 powi (52 - e) = of_int (\<bar>n\<bar> * 2 ^ j)"
      unfolding ax j by simp
    then have "binary64 x = x"
      unfolding e_def by (rule binary64_exact)
    then show ?thesis
      unfolding x_def ..
  next
    case False
    then obtain j where j: "e - 52 = int j"
      using nonneg_int_cases [of "e - 52"] by auto
    define m where "m = roundHalfEven (\<bar>x\<bar> * 2 powi (52 - e))"
    from x0 have "binary64 x = sgn x * of_int m * 2 powi (e - 52)"
      by (simp add: binary64_def Let_def e_def m_def)
    also have "\<dots> = of_int (sgn n * m * 2 ^ j)"
      unfolding j x_def by (simp add: sgn_if)
    finally show ?thesis
      unfolding x_def ..
  qed
qed

lemma jsAdd_value: "of_int (jsAdd a b) = binary64 (of_int a + of_int b)"
proof -
  from binary64_of_int_integer [of "a + b"] obtain k
    where "binary64 (of_int a + of_int b) = (of_int k :: rat)"
    by auto
  then show ?thesis
    by (simp add: jsAdd_def)
qed


section \<open>The totals of the leaderboard\<close>



lemma le_name_credited: "le_name (credited e a w) = le_name e"
  by (simp add: credited_def)


































section \<open>The ratio \<^verbatim>\<open>kd\<close>\<close>

text \<open>The binary64 quotient is within a relative error of \<open>2\<^sup>-\<^sup>5\<^sup>3\<close> of the exact one.\<close>

lemma binary64_near: "\<bar>binary64 x - x\<bar> \<le> \<bar>x\<bar> / 2 ^ 53"
proof (cases "x = 0")
  case True
  then show ?thesis by (simp add: binary64_def)
next
  case False
  define e where "e = binaryExponent x"
  define y where "y = \<bar>x\<bar> * 2 powi (52 - e)"
  define m where "m = roundHalfEven y"
  define P :: rat where "P = 2 powi (e - 52)"
  define s where "s = sgn x"
  have p: "0 < P"
    unfolding P_def by simp
  have "y * P = \<bar>x\<bar>"
    unfolding y_def P_def by (simp add: power_int_diff)
  then have xs: "x = s * (y * P)"
    unfolding s_def by (simp add: mult_sgn_abs)
  from False have b: "binary64 x = s * of_int m * P"
    by (simp add: binary64_def Let_def e_def m_def y_def P_def s_def)
  from False have s1: "\<bar>s\<bar> = 1"
    unfolding s_def by (simp add: abs_sgn_eq)
  have "binary64 x - x = s * ((of_int m - y) * P)"
    unfolding b by (subst xs) (simp add: algebra_simps)
  then have "\<bar>binary64 x - x\<bar> = \<bar>of_int m - y\<bar> * P"
    using p s1 by (simp add: abs_mult)
  also have "\<dots> \<le> 1 / 2 * P"
    using roundHalfEven_near [of y] p unfolding m_def
    by (intro mult_right_mono) simp_all
  also have "\<dots> = 2 powi e / 2 ^ 53"
    unfolding P_def by (simp add: power_int_diff)
  also have "\<dots> \<le> \<bar>x\<bar> / 2 ^ 53"
    using binaryExponent_le [OF False] unfolding e_def
    by (simp add: divide_right_mono)
  finally show ?thesis .
qed

text \<open>
  So the hundredths that \<^verbatim>\<open>toFixed(2)\<close> writes are nearest to the exact quotient, as long as
  the rounding error cannot carry the quotient across a half hundredth.
\<close>

lemma hundredths_nearest:
  fixes k d :: int
  assumes d: "0 < d" and k: "200 * \<bar>k\<bar> < 2 ^ 53"
  shows "\<bar>of_int (hundredths (jsDivide k d)) / 100 - \<bar>of_int k / of_int d\<bar>\<bar> \<le> (1 / 200 :: rat)"
proof -
  define q :: rat where "q = of_int k / of_int d"
  define x where "x = binary64 q"
  define D :: rat where "D = of_int d"
  define K :: int where "K = \<bar>k\<bar>"
  define t :: rat where "t = 100 * \<bar>q\<bar>"
  define t' :: rat where "t' = 100 * \<bar>x\<bar>"
  define N :: int where "N = \<lfloor>t' + 1 / 2\<rfloor>"
  from d have D: "0 < D"
    unfolding D_def by simp
  have absq: "\<bar>q\<bar> = of_int K / D"
    unfolding q_def K_def D_def using d by (simp add: abs_divide)
  then have tD: "t * (2 * D) = of_int (200 * K)"
    unfolding t_def using D by simp
  have "\<bar>\<bar>x\<bar> - \<bar>q\<bar>\<bar> \<le> \<bar>x - q\<bar>"
    by (rule abs_triangle_ineq3)
  also have "\<dots> \<le> \<bar>q\<bar> / 2 ^ 53"
    unfolding x_def by (rule binary64_near)
  finally have "100 * \<bar>\<bar>x\<bar> - \<bar>q\<bar>\<bar> \<le> 100 * (\<bar>q\<bar> / 2 ^ 53)"
    by (simp only: mult_le_cancel_left_pos zero_less_numeral)
  moreover have "\<bar>t' - t\<bar> = 100 * \<bar>\<bar>x\<bar> - \<bar>q\<bar>\<bar>"
    unfolding t_def t'_def by (simp only: abs_mult abs_numeral flip: right_diff_distrib)
  ultimately have "\<bar>t' - t\<bar> \<le> 100 * (\<bar>q\<bar> / 2 ^ 53)"
    by (simp only:)
  also have "\<dots> = of_int (200 * K) / 2 ^ 53 / (2 * D)"
    unfolding absq by simp
  also have "\<dots> < 1 / (2 * D)"
  proof -
    define A :: rat where "A = of_int (200 * K) / 2 ^ 53"
    from k have "(of_int (200 * K) :: rat) < of_int (2 ^ 53)"
      unfolding K_def by (simp only: of_int_less_iff)
    then have "A < 1"
      unfolding A_def by simp
    moreover from D have "0 < 2 * D"
      by simp
    ultimately have "A / (2 * D) < 1 / (2 * D)"
      by (rule divide_strict_right_mono)
    then show ?thesis
      unfolding A_def .
  qed
  finally have err: "\<bar>t' - t\<bar> < 1 / (2 * D)" .
  have fl: "of_int N \<le> t' + 1 / 2" "t' + 1 / 2 < of_int N + 1"
    unfolding N_def by linarith+
  have up: "t \<le> of_int N + 1 / 2"
  proof -
    from err fl(2) have "t < of_int N + 1 / 2 + 1 / (2 * D)"
      by linarith
    then have "t * (2 * D) < (of_int N + 1 / 2 + 1 / (2 * D)) * (2 * D)"
      using D by (simp only: mult_strict_right_mono zero_less_mult_iff zero_less_numeral simp_thms)
    also have "\<dots> = of_int (d * (2 * N + 1) + 1)"
      using D unfolding D_def by (simp add: field_simps)
    finally have "200 * K < d * (2 * N + 1) + 1"
      unfolding tD by (simp only: of_int_less_iff)
    then have "200 * K \<le> d * (2 * N + 1)"
      by simp
    then have "(of_int (200 * K) :: rat) \<le> of_int (d * (2 * N + 1))"
      by (simp only: of_int_le_iff)
    moreover have "(of_int N + 1 / 2) * (2 * D) = of_int (d * (2 * N + 1))"
      unfolding D_def by (simp add: field_simps)
    ultimately have "t * (2 * D) \<le> (of_int N + 1 / 2) * (2 * D)"
      unfolding tD by (simp only:)
    moreover from D have "0 < 2 * D"
      by simp
    ultimately show ?thesis
      by (rule mult_right_le_imp_le)
  qed
  have low: "of_int N - 1 / 2 \<le> t"
  proof -
    from err fl(1) have "of_int N - 1 / 2 - 1 / (2 * D) < t"
      by linarith
    then have "(of_int N - 1 / 2 - 1 / (2 * D)) * (2 * D) < t * (2 * D)"
      using D by (simp only: mult_strict_right_mono zero_less_mult_iff zero_less_numeral simp_thms)
    moreover have "(of_int N - 1 / 2 - 1 / (2 * D)) * (2 * D) = of_int (d * (2 * N - 1) - 1)"
      using D unfolding D_def by (simp add: field_simps)
    ultimately have "d * (2 * N - 1) - 1 < 200 * K"
      unfolding tD by (simp only: of_int_less_iff)
    then have "d * (2 * N - 1) \<le> 200 * K"
      by simp
    then have "(of_int (d * (2 * N - 1)) :: rat) \<le> of_int (200 * K)"
      by (simp only: of_int_le_iff)
    moreover have "(of_int N - 1 / 2) * (2 * D) = of_int (d * (2 * N - 1))"
      unfolding D_def by (simp add: field_simps)
    ultimately have "(of_int N - 1 / 2) * (2 * D) \<le> t * (2 * D)"
      unfolding tD by (simp only:)
    moreover from D have "0 < 2 * D"
      by simp
    ultimately show ?thesis
      by (rule mult_right_le_imp_le)
  qed
  have "hundredths (jsDivide k d) = N"
    unfolding hundredths_def jsDivide_def N_def t'_def x_def q_def
    by (simp add: mult.commute)
  moreover from up low have "\<bar>of_int N / 100 - t / 100\<bar> \<le> (1 / 200 :: rat)"
    by linarith
  moreover have "t / 100 = \<bar>of_int k / of_int d\<bar>"
    unfolding t_def q_def by simp
  ultimately show ?thesis
    by simp
qed

lemma kd_withKd:
  "kd (withKd p) =
     (if totalDeaths p > 0 then KdString (toFixed2 (jsDivide (totalKills p) (totalDeaths p)))
      else KdNumber (totalKills p))"
  by (simp add: withKd_def)

lemma totals_withKd: "totalKills (withKd p) = totalKills p" "totalDeaths (withKd p) = totalDeaths p"
  by (simp_all add: withKd_def)

lemma leaderboard_entries:
  "fst (aggregateLeaderboardFromGames games st) = Inr lb \<Longrightarrow> r \<in> set lb \<Longrightarrow> \<exists>p. r = withKd p"
  by (auto simp: aggregateLeaderboardFromGames_def Let_def split: sum.splits prod.splits)

text \<open>The binary64 quotient has the sign of the exact one.\<close>

lemma roundHalfEven_pos: "1 \<le> y \<Longrightarrow> 0 < roundHalfEven y"
proof -
  assume "1 \<le> y"
  then have "1 \<le> \<lfloor>y\<rfloor>" by simp
  then show ?thesis
    by (auto simp: roundHalfEven_def Let_def)
qed

lemma binary64_negative_iff: "binary64 x < 0 \<longleftrightarrow> x < 0"
proof (cases "x = 0")
  case True
  then show ?thesis by (simp add: binary64_def)
next
  case False
  define e where "e = binaryExponent x"
  define y where "y = \<bar>x\<bar> * 2 powi (52 - e)"
  define m where "m = roundHalfEven y"
  define P :: rat where "P = 2 powi (e - 52)"
  have p: "0 < P"
    unfolding P_def by simp
  from binaryExponent_le [OF False] have "2 powi e * 2 powi (52 - e) \<le> \<bar>x\<bar> * 2 powi (52 - e)"
    unfolding e_def by (rule mult_right_mono) simp
  also have "(2::rat) powi e * 2 powi (52 - e) = 2 powi 52"
    by (simp add: power_int_add [symmetric])
  finally have "1 \<le> y"
    unfolding y_def by simp
  then have "0 < m"
    unfolding m_def by (rule roundHalfEven_pos)
  with p have mp: "0 < of_int m * P"
    by simp
  from False have b: "binary64 x = sgn x * (of_int m * P)"
    by (simp add: binary64_def Let_def e_def m_def y_def P_def)
  define c where "c = of_int m * P"
  from mp have c: "0 < c"
    unfolding c_def .
  show ?thesis
  proof (cases "x < 0")
    case True
    with c show ?thesis
      unfolding b c_def [symmetric] by simp
  next
    case pos: False
    with False have "0 < x" by simp
    with c show ?thesis
      unfolding b c_def [symmetric] by (simp add: not_less [symmetric])
  qed
qed

lemma jsDivide_negative_iff: "0 < b \<Longrightarrow> jsDivide a b < 0 \<longleftrightarrow> a < 0"
  by (simp add: jsDivide_def binary64_negative_iff divide_less_0_iff)

text \<open>
  Claim C8, as the code has it. The \<^verbatim>\<open>kd\<close> of every entry of a leaderboard that is returned
  is the number \<^verbatim>\<open>totalKills\<close> whenever \<^verbatim>\<open>totalDeaths\<close> is not positive; otherwise it is the
  string that \<^verbatim>\<open>toFixed(2)\<close> writes for the binary64 quotient: a sign, which is that of
  \<^verbatim>\<open>totalKills\<close>, and the decimal numeral of a number of hundredths, which is a number of
  hundredths nearest to the exact quotient \<open>totalKills / totalDeaths\<close> as long as
  \<open>200 * \<bar>totalKills\<bar> < 2\<^sup>5\<^sup>3\<close>.
\<close>

theorem kd_of_entry:
  "(\<forall>lb. fst (aggregateLeaderboardFromGames games st) = Inr lb \<longrightarrow>
      (\<forall>r \<in> set lb.
         kd r = (if totalDeaths r > 0
                 then KdString (toFixed2 (jsDivide (totalKills r) (totalDeaths r)))
                 else KdNumber (totalKills r))))
   \<and> (totalDeaths p \<le> 0 \<longrightarrow> kd (withKd p) = KdNumber (totalKills p))
   \<and> (0 < totalDeaths p \<longrightarrow>
         kd (withKd p) = KdString (toFixed2 (jsDivide (totalKills p) (totalDeaths p))))
   \<and> toFixed2 x = (if x < 0 then ''-'' else []) @ decimal (hundredths x div 100) @ ''.''
         @ padStart 2 (decimal (hundredths x mod 100))
   \<and> (0 < totalDeaths p \<longrightarrow>
         (jsDivide (totalKills p) (totalDeaths p) < 0 \<longleftrightarrow> totalKills p < 0))
   \<and> (0 < totalDeaths p \<and> 200 * \<bar>totalKills p\<bar> < 2 ^ 53 \<longrightarrow>
         \<bar>of_int (hundredths (jsDivide (totalKills p) (totalDeaths p))) / 100
            - \<bar>of_int (totalKills p) / of_int (totalDeaths p)\<bar>\<bar> \<le> (1 / 200 :: rat))"
proof -
  have a: "\<forall>lb. fst (aggregateLeaderboardFromGames games st) = Inr lb \<longrightarrow>
      (\<forall>r \<in> set lb.
         kd r = (if totalDeaths r > 0
                 then KdString (toFixed2 (jsDivide (totalKills r) (totalDeaths r)))
                 else KdNumber (totalKills r)))"
  proof (intro allI impI ballI)
    fix lb r
    assume "fst (aggregateLeaderboardFromGames games st) = Inr lb" and "r \<in> set lb"
    then obtain q where "r = withKd q"
      using leaderboard_entries by blast
    then show "kd r = (if totalDeaths r > 0
              then KdString (toFixed2 (jsDivide (totalKills r) (totalDeaths r)))
              else KdNumber (totalKills r))"
      by (simp add: kd_withKd totals_withKd)
  qed
  have b: "totalDeaths p \<le> 0 \<longrightarrow> kd (withKd p) = KdNumber (totalKills p)"
    by (simp add: kd_withKd)
  have c: "0 < totalDeaths p \<longrightarrow>
         kd (withKd p) = KdString (toFixed2 (jsDivide (totalKills p) (totalDeaths p)))"
    by (simp add: kd_withKd)
  have d: "toFixed2 x = (if x < 0 then ''-'' else []) @ decimal (hundredths x div 100) @ ''.''
         @ padStart 2 (decimal (hundredths x mod 100))"
    by (simp add: toFixed2_def Let_def)
  have s: "0 < totalDeaths p \<longrightarrow>
         (jsDivide (totalKills p) (totalDeaths p) < 0 \<longleftrightarrow> totalKills p < 0)"
    using jsDivide_negative_iff [of "totalDeaths p" "totalKills p"] by blast
  have e: "0 < totalDeaths p \<and> 200 * \<bar>totalKills p\<bar> < 2 ^ 53 \<longrightarrow>
         \<bar>of_int (hundredths (jsDivide (totalKills p) (totalDeaths p))) / 100
            - \<bar>of_int (totalKills p) / of_int (totalDeaths p)\<bar>\<bar> \<le> (1 / 200 :: rat)"
    using hundredths_nearest [of "totalDeaths p" "totalKills p"] by blast
  from a b c d s e show ?thesis by blast
qed

theorem kd_of_entry_witness:
  "fst (aggregateLeaderboardFromGames [firstMatch] initialState)
     = Inr [\<lparr>le_name = ''Alice'', matchesPlayed = 1, wins = 1, totalKills = 1, totalDeaths = 0,
              kd = KdNumber 1\<rparr>,
            \<lparr>le_name = ''Bob'', matchesPlayed = 1, wins = 0, totalKills = 0, totalDeaths = 1,
              kd = KdString ''0.00''\<rparr>]
   \<and> toFixed2 (jsDivide 0 1) = ''0.00''
   \<and> kd (withKd aliceTotals) = KdString ''0.67''
   \<and> \<bar>of_int (hundredths (jsDivide 10 15)) / 100 - \<bar>of_int 10 / of_int 15\<bar>\<bar> \<le> (1 / 200 :: rat)"
proof -
  have l: "fst (aggregateLeaderboardFromGames [firstMatch] initialState)
     = Inr [\<lparr>le_name = ''Alice'', matchesPlayed = 1, wins = 1, totalKills = 1, totalDeaths = 0,
              kd = KdNumber 1\<rparr>,
            \<lparr>le_name = ''Bob'', matchesPlayed = 1, wins = 0, totalKills = 0, totalDeaths = 1,
              kd = KdString ''0.00''\<rparr>]"
    by code_simp
  have h: "0 < totalDeaths aliceTotals \<and> 200 * \<bar>totalKills aliceTotals\<bar> < 2 ^ 53"
    by (simp add: aliceTotals_def)
  have f: "toFixed2 (jsDivide 10 15) = ''0.67''"
    by code_simp
  note t = kd_of_entry [of "[firstMatch]" initialState aliceTotals]
  define bob where
    "bob = \<lparr>le_name = ''Bob'', matchesPlayed = 1, wins = 0, totalKills = 0, totalDeaths = 1,
             kd = KdString ''0.00''\<rparr>"
  from t l have "\<forall>r \<in> set [\<lparr>le_name = ''Alice'', matchesPlayed = 1, wins = 1, totalKills = 1,
        totalDeaths = 0, kd = KdNumber 1\<rparr>, bob].
      kd r = (if totalDeaths r > 0
              then KdString (toFixed2 (jsDivide (totalKills r) (totalDeaths r)))
              else KdNumber (totalKills r))"
    unfolding bob_def by blast
  then have "kd bob = (if totalDeaths bob > 0
      then KdString (toFixed2 (jsDivide (totalKills bob) (totalDeaths bob)))
      else KdNumber (totalKills bob))"
    by simp
  then have z: "toFixed2 (jsDivide 0 1) = ''0.00''"
    by (simp add: bob_def)
  from t h have "kd (withKd aliceTotals)
      = KdString (toFixed2 (jsDivide (totalKills aliceTotals) (totalDeaths aliceTotals)))"
    by blast
  then have k: "kd (withKd aliceTotals) = KdString ''0.67''"
    by (simp add: aliceTotals_def f)
  from t h have "\<bar>of_int (hundredths (jsDivide (totalKills aliceTotals) (totalDeaths aliceTotals))) / 100
            - \<bar>of_int (totalKills aliceTotals) / of_int (totalDeaths aliceTotals)\<bar>\<bar> \<le> (1 / 200 :: rat)"
    by blast
  then have n: "\<bar>of_int (hundredths (jsDivide 10 15)) / 100 - \<bar>of_int 10 / of_int 15\<bar>\<bar> \<le> (1 / 200 :: rat)"
    by (simp add: aliceTotals_def)
  from l z k n show ?thesis by blast
qed

text \<open>
  As claim C8 is worded, \<^verbatim>\<open>kd\<close> would be \<^verbatim>\<open>totalKills\<close> only when \<^verbatim>\<open>totalDeaths\<close> is 0, and
  the rounded quotient otherwise. Cy's total of deaths is \<open>-1\<close> and his \<^verbatim>\<open>kd\<close> is the number
  3. For the totals \<open>hugeTotals\<close> the quotient lies below 0.505 and \<^verbatim>\<open>toFixed(2)\<close> of its
  binary64 value writes 0.51, which is further than half a hundredth from it.
\<close>

theorem kd_counterexample:
  "fst (aggregateLeaderboardFromGames [strayDeaths] initialState)
     = Inr [\<lparr>le_name = ''Cy'', matchesPlayed = 1, wins = 1, totalKills = 3, totalDeaths = - 1,
          kd = KdNumber 3\<rparr>,
        \<lparr>le_name = ''Di'', matchesPlayed = 1, wins = 0, totalKills = 0, totalDeaths = 3,
          kd = KdString ''0.00''\<rparr>]
   \<and> kd (withKd hugeTotals) = KdString ''0.51''
   \<and> \<bar>51 / 100 - of_int (totalKills hugeTotals) / of_int (totalDeaths hugeTotals)\<bar> > (1 / 200 :: rat)
   \<and> \<bar>50 / 100 - of_int (totalKills hugeTotals) / of_int (totalDeaths hugeTotals)\<bar> < (1 / 200 :: rat)"
proof -
  have a: "fst (aggregateLeaderboardFromGames [strayDeaths] initialState)
     = Inr [\<lparr>le_name = ''Cy'', matchesPlayed = 1, wins = 1, totalKills = 3, totalDeaths = - 1,
          kd = KdNumber 3\<rparr>,
        \<lparr>le_name = ''Di'', matchesPlayed = 1, wins = 0, totalKills = 0, totalDeaths = 3,
          kd = KdString ''0.00''\<rparr>]"
    by code_simp
  have b: "kd (withKd hugeTotals) = KdString ''0.51''"
    by code_simp
  have c: "\<bar>51 / 100 - of_int (totalKills hugeTotals) / of_int (totalDeaths hugeTotals)\<bar> > (1 / 200 :: rat)"
    by (simp add: hugeTotals_def)
  have d: "\<bar>50 / 100 - of_int (totalKills hugeTotals) / of_int (totalDeaths hugeTotals)\<bar> < (1 / 200 :: rat)"
    by (simp add: hugeTotals_def)
  from a b c d show ?thesis by blast
qed

end
